theory Spec2Isabelle
  imports Main "HOL-Library.Word" "HOL-Library.Sublist"
begin

section \<open>Domain trust and invite links of KIIAREN\<close>

text \<open>
  A shallow embedding of the domain-verification action (\<^verbatim>\<open>convex/domainActions.ts\<close>),
  of the domain and invite-link data model (\<^verbatim>\<open>packages/core/src/domain/types.ts\<close>), of
  the domain hooks and of the workspace transformation of the web client.
\<close>

subsection \<open>JavaScript strings\<close>

text \<open>
  A JavaScript string is a sequence of 16-bit code units. String literals of the source
  are written with \<open>js\<close>, which maps each ASCII character to its code unit.
\<close>

type_synonym code_unit = "16 word"
type_synonym jsstring = "code_unit list"

definition js :: "string \<Rightarrow> jsstring" where
  "js s = map of_char s"

definition QUOTE :: code_unit where
  "QUOTE = 0x22"

definition BACKSLASH :: code_unit where
  "BACKSLASH = 0x5C"

text \<open>
  \<^verbatim>\<open>String.prototype.trim\<close> removes WhiteSpace and LineTerminator code points from both
  ends: TAB, VT, FF, SP, NBSP, ZWNBSP, the Unicode space separators, and LF, CR, LS, PS.
  All of them are single code units.
\<close>

definition isWhiteSpace :: "code_unit \<Rightarrow> bool" where
  "isWhiteSpace c =
     (c = 0x09 \<or> c = 0x0A \<or> c = 0x0B \<or> c = 0x0C \<or> c = 0x0D \<or> c = 0x20 \<or> c = 0xA0
      \<or> c = 0x1680 \<or> (0x2000 \<le> c \<and> c \<le> 0x200A) \<or> c = 0x2028 \<or> c = 0x2029
      \<or> c = 0x202F \<or> c = 0x205F \<or> c = 0x3000 \<or> c = 0xFEFF)"

definition trim :: "jsstring \<Rightarrow> jsstring" where
  "trim s = rev (dropWhile isWhiteSpace (rev (dropWhile isWhiteSpace s)))"

text \<open>
  \<^verbatim>\<open>s.replace(/^"|"$/g, '')\<close>: the global replace removes a quote at the start of the
  input and a quote at the end of the input; a match never overlaps an earlier one, so in
  the one-character string \<^verbatim>\<open>"\<close> the single quote is removed once.
\<close>

definition stripQuotes :: "jsstring \<Rightarrow> jsstring" where
  "stripQuotes s =
     (let s1 = (case s of [] \<Rightarrow> [] | c # cs \<Rightarrow> if c = QUOTE then cs else s)
      in if s1 \<noteq> [] \<and> last s1 = QUOTE then butlast s1 else s1)"

text \<open>
  \<^verbatim>\<open>s.replace(/\\"/g, '"')\<close>: scanning from the left, each backslash followed by a
  quote becomes a quote; the scan continues after the replaced pair.
\<close>

fun unescapeQuotes :: "jsstring \<Rightarrow> jsstring" where
  "unescapeQuotes (a # b # rest) =
     (if a = BACKSLASH \<and> b = QUOTE then QUOTE # unescapeQuotes rest
      else a # unescapeQuotes (b # rest))"
| "unescapeQuotes s = s"

text \<open>
  The encoding that the unescaping undoes, as a resolver writes a payload into the JSON
  answer: a backslash before each quote. It is not part of the program; the properties
  below state what the program accepts in terms of it.
\<close>

fun escapeQuotes :: "jsstring \<Rightarrow> jsstring" where
  "escapeQuotes [] = []"
| "escapeQuotes (c # cs) =
     (if c = QUOTE then BACKSLASH # QUOTE # escapeQuotes cs else c # escapeQuotes cs)"

text \<open>\<^verbatim>\<open>xs.join(', ')\<close>\<close>

fun join :: "jsstring \<Rightarrow> jsstring list \<Rightarrow> jsstring" where
  "join sep [] = []"
| "join sep [x] = x"
| "join sep (x # y # ys) = x @ sep @ join sep (y # ys)"

subsection \<open>The DNS resolver adapter\<close>

text \<open>
  The answer entries and the response of the DNS-over-HTTPS resolver, as the interface
  \<^verbatim>\<open>DnsResponse\<close> declares them; the flags and the question section are never read.
\<close>

record DnsAnswer =
  name :: jsstring
  type :: int
  TTL :: int
  data :: jsstring

record DnsResponse =
  Status :: int
  Answer :: "DnsAnswer list option"

text \<open>
  How the promises of \<^verbatim>\<open>fetch\<close> and \<^verbatim>\<open>response.json()\<close> settle: the request is
  rejected (network error), or a response arrives with its \<^verbatim>\<open>ok\<close> flag and status,
  whose body either fails to parse or parses to a response object.
\<close>

datatype json_outcome = JsonRejected | JsonValue DnsResponse

datatype fetch_outcome = FetchRejected | Response bool nat json_outcome

datatype exn = NetworkError | HttpError nat | JsonParseError

text \<open>The resolver is the environment: the outcome of the request for each queried name.\<close>

type_synonym resolver = "jsstring \<Rightarrow> fetch_outcome"

text \<open>The body of the \<^verbatim>\<open>try\<close> block of \<^verbatim>\<open>lookupDnsTxt\<close>; \<open>Inl\<close> is a throw.\<close>

definition lookupDnsTxt_try :: "resolver \<Rightarrow> jsstring \<Rightarrow> exn + jsstring list" where
  "lookupDnsTxt_try fetch dnsName =
     (case fetch dnsName of
        FetchRejected \<Rightarrow> Inl NetworkError
      | Response ok st body \<Rightarrow>
          if \<not> ok then Inl (HttpError st)
          else (case body of
                  JsonRejected \<Rightarrow> Inl JsonParseError
                | JsonValue d \<Rightarrow>
                    (case Answer d of
                       None \<Rightarrow> Inr []
                     | Some as \<Rightarrow>
                         Inr (map (\<lambda>a. unescapeQuotes (stripQuotes (data a)))
                                  (filter (\<lambda>a. type a = 16) as)))))"

text \<open>The \<^verbatim>\<open>catch\<close> block logs the error and returns the empty list.\<close>

definition lookupDnsTxt :: "resolver \<Rightarrow> jsstring \<Rightarrow> jsstring list" where
  "lookupDnsTxt fetch dnsName =
     (case lookupDnsTxt_try fetch dnsName of Inl e \<Rightarrow> [] | Inr records \<Rightarrow> records)"

subsection \<open>Domain claims and the store\<close>

text \<open>Document ids are opaque strings in the source; here they are numbered.\<close>

type_synonym EntityId = nat

datatype DomainStatus = pending | verified | failed

text \<open>
  The interface \<^verbatim>\<open>Domain\<close>; its field \<^verbatim>\<open>id\<close> is \<open>domainId\<close> here. Timestamps are
  milliseconds, as \<^verbatim>\<open>Date.now()\<close> gives them.
\<close>

record Domain =
  domainId :: EntityId
  workspaceId :: EntityId
  domain :: jsstring
  verificationToken :: jsstring
  status :: DomainStatus
  verifiedAt :: "int option"
  createdAt :: int
  createdBy :: EntityId

definition DNS_TXT_PREFIX :: jsstring where
  "DNS_TXT_PREFIX = js ''kiiaren-verification=''"

definition DNS_TXT_SUBDOMAIN :: jsstring where
  "DNS_TXT_SUBDOMAIN = js ''_kiiaren-verification''"

text \<open>
  A stored workspace document, as \<^verbatim>\<open>transformWorkspace\<close> receives it: the fields
  \<^verbatim>\<open>_id\<close>, \<^verbatim>\<open>name\<close>, \<^verbatim>\<open>userId\<close>, \<^verbatim>\<open>joinCode\<close>, \<^verbatim>\<open>_creationTime\<close> and the two
  optional trust fields, which are absent until the verification flow writes them.
\<close>

record WorkspaceDoc =
  w_id :: EntityId
  w_name :: jsstring
  w_userId :: EntityId
  w_joinCode :: jsstring
  w_creationTime :: int
  w_domainVerified :: "bool option"
  w_joinCodeEnabled :: "bool option"

text \<open>
  The interface \<^verbatim>\<open>InviteLink\<close>; \<^verbatim>\<open>id\<close>, \<^verbatim>\<open>workspaceId\<close>, \<^verbatim>\<open>createdBy\<close> and
  \<^verbatim>\<open>createdAt\<close> carry the prefix \<open>link\<close>. \<^verbatim>\<open>maxUses\<close> is the maximum number of uses
  and \<^verbatim>\<open>usedCount\<close> the current number of uses: both are counts.
\<close>

datatype InviteLinkScope = ScopeWorkspace | ScopeChannel EntityId

record InviteLink =
  linkId :: EntityId
  linkWorkspaceId :: EntityId
  code :: jsstring
  linkCreatedBy :: EntityId
  linkCreatedAt :: int
  expiresAt :: int
  maxUses :: "nat option"
  usedCount :: nat
  scope :: InviteLinkScope
  revokedAt :: "int option"

text \<open>
  A row of the table \<^verbatim>\<open>members\<close>, as \<^verbatim>\<open>convex/lib/access_control.ts\<close> reads it: its
  \<^verbatim>\<open>userId\<close>, its \<^verbatim>\<open>workspaceId\<close> and its \<^verbatim>\<open>role\<close>.
\<close>

datatype Role = admin | member

record Member =
  memberUserId :: EntityId
  memberWorkspaceId :: EntityId
  role :: Role

text \<open>
  The tables of the document store: claims, workspaces, invite links and memberships,
  each in insertion order, and the next fresh document id.
\<close>

record store =
  domains :: "Domain list"
  workspaces :: "WorkspaceDoc list"
  inviteLinks :: "InviteLink list"
  members :: "Member list"
  nextId :: EntityId

text \<open>
  Modelled from the spec: \<^verbatim>\<open>api.domains.getById\<close> of \<^verbatim>\<open>convex/domains.ts\<close>, which is
  not among the sources; the persistence collaborator's point-get by id, \<^verbatim>\<open>null\<close> when
  no claim has the id.
\<close>

definition getById :: "store \<Rightarrow> EntityId \<Rightarrow> Domain option" where
  "getById s i = find (\<lambda>d. domainId d = i) (domains s)"

text \<open>
  Modelled from the spec: \<^verbatim>\<open>internal.domains.updateStatus\<close> of \<^verbatim>\<open>convex/domains.ts\<close>,
  which is not among the sources; an atomic patch by id that persists the status, sets
  \<^verbatim>\<open>verifiedAt\<close> when one is passed, and on \<^verbatim>\<open>verified\<close> sets the owning workspace's
  \<^verbatim>\<open>domainVerified = true\<close> and \<^verbatim>\<open>joinCodeEnabled = false\<close>.
\<close>

definition patchDomain :: "EntityId \<Rightarrow> DomainStatus \<Rightarrow> int option \<Rightarrow> Domain \<Rightarrow> Domain" where
  "patchDomain i st t d =
     (if domainId d = i
      then d\<lparr>status := st, verifiedAt := (case t of None \<Rightarrow> verifiedAt d | Some v \<Rightarrow> Some v)\<rparr>
      else d)"

definition markVerified :: "EntityId \<Rightarrow> WorkspaceDoc \<Rightarrow> WorkspaceDoc" where
  "markVerified w doc =
     (if w_id doc = w
      then doc\<lparr>w_domainVerified := Some True, w_joinCodeEnabled := Some False\<rparr>
      else doc)"

definition updateStatus :: "store \<Rightarrow> EntityId \<Rightarrow> DomainStatus \<Rightarrow> int option \<Rightarrow> store" where
  "updateStatus s i st t =
     (case getById s i of
        None \<Rightarrow> s
      | Some d \<Rightarrow>
          s\<lparr>domains := map (patchDomain i st t) (domains s),
            workspaces := (if st = verified then map (markVerified (workspaceId d)) (workspaces s)
                           else workspaces s)\<rparr>)"

subsection \<open>Errors\<close>

text \<open>
  The reasons of \<^verbatim>\<open>DomainVerificationError\<close> and \<^verbatim>\<open>InviteLinkError\<close>; the invite
  reason \<^verbatim>\<open>not_found\<close> is \<open>invite_not_found\<close> here. The other errors are the ones
  \<^verbatim>\<open>convex/lib/access_control.ts\<close> throws, the failure of \<^verbatim>\<open>unique()\<close> on several rows,
  and the rejection of a malformed domain or of an unknown document id by a mutation.
\<close>

datatype DomainReason = not_found | invalid_token | dns_error | already_claimed

datatype InviteReason = invite_not_found | expired | revoked | max_uses | already_member

datatype error =
    Unauthorized
  | NotWorkspaceMember
  | NotWorkspaceAdmin
  | NonUniqueResult
  | InvalidDomain
  | NotFound
  | DomainVerificationError jsstring DomainReason
  | InviteLinkError jsstring InviteReason

subsection \<open>The action verifyDomain\<close>

record VerifyResult =
  success :: bool
  error :: "jsstring option"

text \<open>A call \<^verbatim>\<open>ctx.runMutation(internal.domains.updateStatus, args)\<close> with its arguments.\<close>

datatype mutation_call = UpdateStatus EntityId DomainStatus "int option"

definition dnsNameOf :: "Domain \<Rightarrow> jsstring" where
  "dnsNameOf d = js ''_kiiaren-verification.'' @ domain d"

definition expectedValueOf :: "Domain \<Rightarrow> jsstring" where
  "expectedValueOf d = js ''kiiaren-verification='' @ verificationToken d"

text \<open>
  The handler of the action: the store answers the query, the resolver answers the
  lookup, \<open>now\<close> is \<^verbatim>\<open>Date.now()\<close>. The outcome of the promise is \<open>Inr\<close> of the returned
  object or \<open>Inl\<close> of a thrown error; beside it are the mutations the handler has run,
  in order.
\<close>

definition verifyDomain ::
  "store \<Rightarrow> resolver \<Rightarrow> int \<Rightarrow> EntityId \<Rightarrow> (error + VerifyResult) \<times> mutation_call list" where
  "verifyDomain s fetch now i =
     (case getById s i of
        None \<Rightarrow> (Inr \<lparr>success = False, error = Some (js ''Domain not found'')\<rparr>, [])
      | Some d \<Rightarrow>
          (let dnsName = dnsNameOf d;
               expectedValue = expectedValueOf d;
               txtRecords = lookupDnsTxt fetch dnsName;
               isVerified = list_ex (\<lambda>record. trim record = expectedValue) txtRecords
           in if isVerified
              then (Inr \<lparr>success = True, error = None\<rparr>, [UpdateStatus i verified (Some now)])
              else if txtRecords = []
              then (Inr \<lparr>success = False,
                         error = Some (js ''No TXT records found at '' @ dnsName
                           @ js ''. Please add the DNS record and wait for propagation (usually 5-15 minutes).'')\<rparr>,
                    [UpdateStatus i failed None])
              else (Inr \<lparr>success = False,
                         error = Some (js ''TXT records found at '' @ dnsName
                           @ js '' but none match the expected value. Found: ''
                           @ join (js '', '') txtRecords)\<rparr>,
                    [UpdateStatus i failed None])))"

text \<open>The promise resolves to a result object whose \<^verbatim>\<open>success\<close> is true.\<close>

definition succeeds :: "error + VerifyResult \<Rightarrow> bool" where
  "succeeds outcome = (case outcome of Inl e \<Rightarrow> False | Inr r \<Rightarrow> success r)"

fun runMutation :: "store \<Rightarrow> mutation_call \<Rightarrow> store" where
  "runMutation s (UpdateStatus i st t) = updateStatus s i st t"

text \<open>The action against the store: the outcome and the store after its mutations.\<close>

definition verifyDomainAction ::
  "store \<Rightarrow> resolver \<Rightarrow> int \<Rightarrow> EntityId \<Rightarrow> (error + VerifyResult) \<times> store" where
  "verifyDomainAction s fetch now i =
     (case verifyDomain s fetch now i of (r, calls) \<Rightarrow> (r, foldl runMutation s calls))"

subsection \<open>Error messages and access control\<close>

text \<open>The message table of \<^verbatim>\<open>DomainVerificationError\<close>, without the optional details.\<close>

fun domainVerificationMessage :: "jsstring \<Rightarrow> DomainReason \<Rightarrow> jsstring" where
  "domainVerificationMessage d not_found =
     js ''[KIIAREN] Domain verification failed: DNS TXT record not found for _kiiaren-verification.'' @ d"
| "domainVerificationMessage d invalid_token =
     js ''[KIIAREN] Domain verification failed: DNS TXT record found but verification token does not match''"
| "domainVerificationMessage d dns_error =
     js ''[KIIAREN] Domain verification failed: Failed to query DNS for '' @ d"
| "domainVerificationMessage d already_claimed =
     js ''[KIIAREN] Domain verification failed: Domain '' @ d
       @ js '' is already claimed by another workspace''"

text \<open>The message table of \<^verbatim>\<open>InviteLinkError\<close>.\<close>

fun inviteLinkMessage :: "InviteReason \<Rightarrow> jsstring" where
  "inviteLinkMessage invite_not_found = js ''[KIIAREN] Invite link not found''"
| "inviteLinkMessage expired = js ''[KIIAREN] Invite link has expired''"
| "inviteLinkMessage revoked = js ''[KIIAREN] Invite link has been revoked''"
| "inviteLinkMessage max_uses = js ''[KIIAREN] Invite link has reached maximum uses''"
| "inviteLinkMessage already_member = js ''[KIIAREN] You are already a member of this workspace''"

text \<open>
  \<^verbatim>\<open>requireAuth\<close>, \<^verbatim>\<open>requireWorkspaceMember\<close> and \<^verbatim>\<open>requireWorkspaceAdmin\<close>; the
  session is the authenticated user id, if any. \<^verbatim>\<open>unique()\<close> returns the only matching
  row, \<^verbatim>\<open>null\<close> when there is none, and throws when there are several.
\<close>

definition requireAuth :: "EntityId option \<Rightarrow> error + EntityId" where
  "requireAuth session = (case session of None \<Rightarrow> Inl Unauthorized | Some u \<Rightarrow> Inr u)"

definition unique :: "'a list \<Rightarrow> error + 'a option" where
  "unique rows =
     (case rows of [] \<Rightarrow> Inr None | [r] \<Rightarrow> Inr (Some r) | r # r' # rs \<Rightarrow> Inl NonUniqueResult)"

definition requireWorkspaceMember :: "store \<Rightarrow> EntityId option \<Rightarrow> EntityId \<Rightarrow> error + Member" where
  "requireWorkspaceMember s session w =
     (case requireAuth session of
        Inl e \<Rightarrow> Inl e
      | Inr u \<Rightarrow>
          (case unique (filter (\<lambda>m. memberWorkspaceId m = w \<and> memberUserId m = u) (members s)) of
             Inl e \<Rightarrow> Inl e
           | Inr None \<Rightarrow> Inl NotWorkspaceMember
           | Inr (Some m) \<Rightarrow> Inr m))"

definition requireWorkspaceAdmin :: "store \<Rightarrow> EntityId option \<Rightarrow> EntityId \<Rightarrow> error + Member" where
  "requireWorkspaceAdmin s session w =
     (case requireWorkspaceMember s session w of
        Inl e \<Rightarrow> Inl e
      | Inr m \<Rightarrow> if role m \<noteq> admin then Inl NotWorkspaceAdmin else Inr m)"

subsection \<open>Adding and removing claims\<close>

text \<open>Lower-casing of a host name: the ASCII capitals; other code units stay.\<close>

definition toLowerCase :: "jsstring \<Rightarrow> jsstring" where
  "toLowerCase s = map (\<lambda>c. if 0x41 \<le> c \<and> c \<le> 0x5A then c + 0x20 else c) s"

text \<open>
  Modelled from the spec: the normalisation of \<^verbatim>\<open>addDomain\<close> in \<^verbatim>\<open>convex/domains.ts\<close>,
  which is not among the sources; the domain is trimmed and lower-cased, and empty or
  malformed input is rejected. What counts as a well-formed host is the parameter
  \<open>validHost\<close>.
\<close>

definition normalizeDomain :: "(jsstring \<Rightarrow> bool) \<Rightarrow> jsstring \<Rightarrow> jsstring option" where
  "normalizeDomain validHost raw =
     (let d = toLowerCase (trim raw) in if d \<noteq> [] \<and> validHost d then Some d else None)"




text \<open>
  Modelled from the spec: \<^verbatim>\<open>addDomain\<close> of \<^verbatim>\<open>convex/domains.ts\<close>, which is not among
  the sources. The requester must be an admin of the workspace; the domain is
  normalised; the claim is inserted by the store's insert-if-absent by unique domain, a
  uniqueness that is independent of status: the call fails with \<^verbatim>\<open>already_claimed\<close>
  when a claim for the normalised domain exists, so in particular when any workspace
  holds a pending or verified one; otherwise a pending claim with the generated token is
  inserted and returned. The random token is the parameter \<open>token\<close>.
\<close>

definition addDomain ::
  "(jsstring \<Rightarrow> bool) \<Rightarrow> store \<Rightarrow> EntityId option \<Rightarrow> jsstring \<Rightarrow> int \<Rightarrow> EntityId \<Rightarrow> jsstring
     \<Rightarrow> error + Domain \<times> store" where
  "addDomain validHost s session token now w raw =
     (case requireWorkspaceAdmin s session w of
        Inl e \<Rightarrow> Inl e
      | Inr m \<Rightarrow>
          (case normalizeDomain validHost raw of
             None \<Rightarrow> Inl InvalidDomain
           | Some D \<Rightarrow>
               if filter (\<lambda>d. domain d = D) (domains s) \<noteq> []
               then Inl (DomainVerificationError D already_claimed)
               else (let c = \<lparr>domainId = nextId s, workspaceId = w, domain = D,
                               verificationToken = token, status = pending, verifiedAt = None,
                               createdAt = now, createdBy = memberUserId m\<rparr>
                     in Inr (c, s\<lparr>domains := domains s @ [c], nextId := Suc (nextId s)\<rparr>))))"

text \<open>
  Modelled from the spec: \<^verbatim>\<open>removeDomain\<close> of \<^verbatim>\<open>convex/domains.ts\<close>, which is not
  among the sources. Admin-only; the claim is deleted; if it was the workspace's only
  verified claim, the workspace's \<^verbatim>\<open>domainVerified\<close> is reset to false and
  \<^verbatim>\<open>joinCodeEnabled\<close> to true.
\<close>

definition resetTrust :: "EntityId \<Rightarrow> WorkspaceDoc \<Rightarrow> WorkspaceDoc" where
  "resetTrust w doc =
     (if w_id doc = w
      then doc\<lparr>w_domainVerified := Some False, w_joinCodeEnabled := Some True\<rparr>
      else doc)"

definition removeDomain :: "store \<Rightarrow> EntityId option \<Rightarrow> EntityId \<Rightarrow> error + store" where
  "removeDomain s session i =
     (case getById s i of
        None \<Rightarrow> Inl NotFound
      | Some d \<Rightarrow>
          (case requireWorkspaceAdmin s session (workspaceId d) of
             Inl e \<Rightarrow> Inl e
           | Inr m \<Rightarrow>
               (let rest = filter (\<lambda>x. domainId x \<noteq> i) (domains s);
                    others = list_ex (\<lambda>x. workspaceId x = workspaceId d \<and> status x = verified) rest
                in Inr (s\<lparr>domains := rest,
                         workspaces := (if status d = verified \<and> \<not> others
                                        then map (resetTrust (workspaceId d)) (workspaces s)
                                        else workspaces s)\<rparr>))))"

subsection \<open>Invite links\<close>

text \<open>
  Modelled from the spec: the invite-link functions of \<^verbatim>\<open>convex/inviteLinks.ts\<close>, which
  is not among the sources.

  \<^verbatim>\<open>createInviteLink\<close> is admin-only; \<^verbatim>\<open>expiresInHours\<close> defaults to 24 and
  \<^verbatim>\<open>expiresAt\<close> is that many hours after now; \<^verbatim>\<open>usedCount\<close> starts at 0. The generated
  code is the parameter \<open>c\<close>.
\<close>

definition createInviteLink ::
  "store \<Rightarrow> EntityId option \<Rightarrow> jsstring \<Rightarrow> int \<Rightarrow> EntityId \<Rightarrow> InviteLinkScope \<Rightarrow> int option
     \<Rightarrow> nat option \<Rightarrow> error + InviteLink \<times> store" where
  "createInviteLink s session c now w sc expiresInHours mx =
     (case requireWorkspaceAdmin s session w of
        Inl e \<Rightarrow> Inl e
      | Inr m \<Rightarrow>
          (let hours = (case expiresInHours of None \<Rightarrow> 24 | Some h \<Rightarrow> h);
               l = \<lparr>linkId = nextId s, linkWorkspaceId = w, code = c,
                    linkCreatedBy = memberUserId m, linkCreatedAt = now,
                    expiresAt = now + hours * 3600 * 1000, maxUses = mx, usedCount = 0,
                    scope = sc, revokedAt = None\<rparr>
           in Inr (l, s\<lparr>inviteLinks := inviteLinks s @ [l], nextId := Suc (nextId s)\<rparr>)))"

text \<open>
  \<^verbatim>\<open>getInviteLinkByCode\<close> is public and returns the link only if it exists; it does not
  filter by validity.
\<close>

definition getInviteLinkByCode :: "store \<Rightarrow> jsstring \<Rightarrow> InviteLink option" where
  "getInviteLinkByCode s c = find (\<lambda>l. code l = c) (inviteLinks s)"

text \<open>
  A link is redeemable iff \<^verbatim>\<open>revokedAt\<close> is unset, the current time is before
  \<^verbatim>\<open>expiresAt\<close>, and \<^verbatim>\<open>maxUses\<close> is unset or \<^verbatim>\<open>usedCount < maxUses\<close>.
\<close>

definition isRedeemable :: "InviteLink \<Rightarrow> int \<Rightarrow> bool" where
  "isRedeemable l now =
     (revokedAt l = None \<and> now < expiresAt l
      \<and> (case maxUses l of None \<Rightarrow> True | Some n \<Rightarrow> usedCount l < n))"

text \<open>The single-record read-modify-write: the first row that satisfies \<open>p\<close> is patched.\<close>

fun patchFirst :: "('a \<Rightarrow> bool) \<Rightarrow> ('a \<Rightarrow> 'a) \<Rightarrow> 'a list \<Rightarrow> 'a list" where
  "patchFirst p f [] = []"
| "patchFirst p f (x # xs) = (if p x then f x # xs else x # patchFirst p f xs)"

text \<open>
  \<^verbatim>\<open>redeemInviteLink\<close> is authenticated; each check short-circuits with its reason:
  lookup by code (\<^verbatim>\<open>not_found\<close>), \<^verbatim>\<open>revokedAt\<close> set (\<^verbatim>\<open>revoked\<close>), now at or after
  \<^verbatim>\<open>expiresAt\<close> (\<^verbatim>\<open>expired\<close>), \<^verbatim>\<open>maxUses\<close> set and reached (\<^verbatim>\<open>max_uses\<close>), user already
  a member of the workspace (\<^verbatim>\<open>already_member\<close>); otherwise \<^verbatim>\<open>usedCount\<close> is
  incremented and the membership with role member is created, in one mutation.
\<close>

definition redeemInviteLink :: "store \<Rightarrow> EntityId option \<Rightarrow> int \<Rightarrow> jsstring \<Rightarrow> error + store" where
  "redeemInviteLink s session now c =
     (case requireAuth session of
        Inl e \<Rightarrow> Inl e
      | Inr u \<Rightarrow>
          (case getInviteLinkByCode s c of
             None \<Rightarrow> Inl (InviteLinkError c invite_not_found)
           | Some l \<Rightarrow>
               if revokedAt l \<noteq> None then Inl (InviteLinkError c revoked)
               else if now \<ge> expiresAt l then Inl (InviteLinkError c expired)
               else if (case maxUses l of None \<Rightarrow> False | Some n \<Rightarrow> usedCount l \<ge> n)
               then Inl (InviteLinkError c max_uses)
               else if list_ex (\<lambda>m. memberWorkspaceId m = linkWorkspaceId l \<and> memberUserId m = u)
                         (members s)
               then Inl (InviteLinkError c already_member)
               else Inr (s\<lparr>inviteLinks :=
                            patchFirst (\<lambda>x. code x = c) (\<lambda>x. x\<lparr>usedCount := Suc (usedCount x)\<rparr>)
                              (inviteLinks s),
                          members := members s
                            @ [\<lparr>memberUserId = u, memberWorkspaceId = linkWorkspaceId l,
                                role = member\<rparr>]\<rparr>)))"

text \<open>
  A mutation is a transaction: when it throws nothing is written, when it returns the
  new store is committed.
\<close>

definition afterMutation :: "store \<Rightarrow> error + store \<Rightarrow> store" where
  "afterMutation s r = (case r of Inl e \<Rightarrow> s | Inr s' \<Rightarrow> s')"

text \<open>\<^verbatim>\<open>revokeInviteLink\<close> is admin-only and sets \<^verbatim>\<open>revokedAt\<close> to now.\<close>

definition revokeInviteLink :: "store \<Rightarrow> EntityId option \<Rightarrow> int \<Rightarrow> EntityId \<Rightarrow> error + store" where
  "revokeInviteLink s session now i =
     (case find (\<lambda>l. linkId l = i) (inviteLinks s) of
        None \<Rightarrow> Inl NotFound
      | Some l \<Rightarrow>
          (case requireWorkspaceAdmin s session (linkWorkspaceId l) of
             Inl e \<Rightarrow> Inl e
           | Inr m \<Rightarrow>
               Inr (s\<lparr>inviteLinks :=
                        patchFirst (\<lambda>x. linkId x = i) (\<lambda>x. x\<lparr>revokedAt := Some now\<rparr>)
                          (inviteLinks s)\<rparr>)))"

text \<open>The bound on the uses of a link, and of every link of a store.\<close>

definition withinMaxUses :: "InviteLink \<Rightarrow> bool" where
  "withinMaxUses l = (case maxUses l of None \<Rightarrow> True | Some n \<Rightarrow> usedCount l \<le> n)"

definition usesBounded :: "store \<Rightarrow> bool" where
  "usesBounded s = list_all withinMaxUses (inviteLinks s)"

subsection \<open>Reachable stores\<close>

text \<open>
  The stores the system can be in: it starts without claims and without invite links;
  each operation above that succeeds is a step, every run of the verification action is
  a step, and the rest of the application changes workspaces and memberships at will.
\<close>

inductive reachable :: "store \<Rightarrow> bool" where
  reach_init: "domains s = [] \<Longrightarrow> inviteLinks s = [] \<Longrightarrow> reachable s"
| reach_other: "reachable s \<Longrightarrow> reachable (s\<lparr>workspaces := ws, members := ms\<rparr>)"
| reach_addDomain:
    "reachable s \<Longrightarrow> addDomain validHost s session token now w raw = Inr (c, s') \<Longrightarrow> reachable s'"
| reach_verifyDomain:
    "reachable s \<Longrightarrow> verifyDomainAction s fetch now i = (r, s') \<Longrightarrow> reachable s'"
| reach_removeDomain:
    "reachable s \<Longrightarrow> removeDomain s session i = Inr s' \<Longrightarrow> reachable s'"
| reach_createInviteLink:
    "reachable s \<Longrightarrow> createInviteLink s session c now w sc h mx = Inr (l, s') \<Longrightarrow> reachable s'"
| reach_redeemInviteLink:
    "reachable s \<Longrightarrow> redeemInviteLink s session now c = Inr s' \<Longrightarrow> reachable s'"
| reach_revokeInviteLink:
    "reachable s \<Longrightarrow> revokeInviteLink s session now i = Inr s' \<Longrightarrow> reachable s'"

subsection \<open>The domain hooks of the web client\<close>

text \<open>
  One render of a hook of the domain hooks module: the React hooks it calls, in order,
  and then either a thrown \<^verbatim>\<open>Error\<close> with its message or the hook's value.
  \<^verbatim>\<open>useMutation\<close> and \<^verbatim>\<open>useAction\<close> only bind a function of the backend API to a
  callable; \<^verbatim>\<open>useQuery\<close> issues the query to the backend unless its argument is
  \<^verbatim>\<open>'skip'\<close>.
\<close>

datatype api_function =
    domains_addDomain
  | domainActions_verifyDomain
  | domains_listDomains
  | domains_removeDomain
  | domains_getVerificationInstructions

datatype hook_step =
    UseProviderId
  | UseMutation api_function
  | UseAction api_function
  | UseState
  | UseCallback
  | UseQuery api_function "EntityId option"

datatype backend_request = Request api_function EntityId

datatype hook_value = Mutate api_function | QueryData api_function

type_synonym render = "(jsstring + hook_value) \<times> hook_step list"

text \<open>The backend requests that the steps of a render issue.\<close>

fun backendRequests :: "hook_step list \<Rightarrow> backend_request list" where
  "backendRequests [] = []"
| "backendRequests (UseQuery f (Some i) # steps) = Request f i # backendRequests steps"
| "backendRequests (step # steps) = backendRequests steps"

definition notImplemented :: "jsstring \<Rightarrow> jsstring \<Rightarrow> jsstring" where
  "notImplemented providerId operation =
     js ''['' @ providerId @ js ''] '' @ operation @ js '' is not implemented. ''
       @ js ''See docs/EDITIONING.md for self-host status.''"

definition useAddDomain :: "jsstring \<Rightarrow> render" where
  "useAddDomain providerId =
     (let steps = [UseProviderId, UseMutation domains_addDomain, UseState]
      in if providerId \<noteq> js ''convex''
         then (Inl (notImplemented providerId (js ''domains.add'')), steps)
         else (Inr (Mutate domains_addDomain), steps @ [UseCallback]))"

definition useVerifyDomain :: "jsstring \<Rightarrow> render" where
  "useVerifyDomain providerId =
     (let steps = [UseProviderId, UseAction domainActions_verifyDomain, UseState]
      in if providerId \<noteq> js ''convex''
         then (Inl (notImplemented providerId (js ''domains.verify'')), steps)
         else (Inr (Mutate domainActions_verifyDomain), steps @ [UseCallback]))"

definition useListDomains :: "jsstring \<Rightarrow> EntityId \<Rightarrow> render" where
  "useListDomains providerId w =
     (let steps = [UseProviderId]
      in if providerId \<noteq> js ''convex''
         then (Inl (notImplemented providerId (js ''domains.list'')), steps)
         else (Inr (QueryData domains_listDomains),
               steps @ [UseQuery domains_listDomains (Some w)]))"

definition useRemoveDomain :: "jsstring \<Rightarrow> render" where
  "useRemoveDomain providerId =
     (let steps = [UseProviderId, UseMutation domains_removeDomain, UseState]
      in if providerId \<noteq> js ''convex''
         then (Inl (notImplemented providerId (js ''domains.remove'')), steps)
         else (Inr (Mutate domains_removeDomain), steps @ [UseCallback]))"

definition useGetVerificationInstructions :: "jsstring \<Rightarrow> EntityId option \<Rightarrow> render" where
  "useGetVerificationInstructions providerId i =
     (let steps = [UseProviderId]
      in if providerId \<noteq> js ''convex''
         then (Inl (notImplemented providerId (js ''domains.getVerificationInstructions'')), steps)
         else (Inr (QueryData domains_getVerificationInstructions),
               steps @ [UseQuery domains_getVerificationInstructions i]))"

subsection \<open>The workspace transformation of the web client\<close>

text \<open>
  The provider-agnostic \<^verbatim>\<open>Workspace\<close>: the trust fields \<^verbatim>\<open>WorkspaceDomainFields\<close> and
  \<^verbatim>\<open>id\<close>, \<^verbatim>\<open>name\<close>, \<^verbatim>\<open>ownerId\<close>, \<^verbatim>\<open>joinCode\<close>, \<^verbatim>\<open>createdAt\<close>.
\<close>

record WorkspaceDomainFields =
  domainVerified :: bool
  joinCodeEnabled :: bool

record Workspace = WorkspaceDomainFields +
  workspace_id :: EntityId
  workspace_name :: jsstring
  ownerId :: EntityId
  joinCode :: jsstring
  workspace_createdAt :: int

text \<open>The operator \<^verbatim>\<open>??\<close>: the right operand when the left one is absent.\<close>

definition nullish :: "'a option \<Rightarrow> 'a \<Rightarrow> 'a" where
  "nullish v d = (case v of None \<Rightarrow> d | Some x \<Rightarrow> x)"

definition transformWorkspace :: "WorkspaceDoc \<Rightarrow> Workspace" where
  "transformWorkspace w =
     \<lparr>domainVerified = nullish (w_domainVerified w) False,
      joinCodeEnabled = nullish (w_joinCodeEnabled w) True,
      workspace_id = w_id w,
      workspace_name = w_name w,
      ownerId = w_userId w,
      joinCode = w_joinCode w,
      workspace_createdAt = w_creationTime w\<rparr>"

text \<open>A render that throws an error whose message says that the operation is not implemented.\<close>

definition throwsNotImplemented :: "render \<Rightarrow> bool" where
  "throwsNotImplemented r =
     (case fst r of Inl msg \<Rightarrow> sublist (js ''is not implemented'') msg | Inr v \<Rightarrow> False)"

subsection \<open>Example data\<close>

text \<open>A workspace document that the verification flow has never written to.\<close>

definition freshWorkspace :: WorkspaceDoc where
  "freshWorkspace =
     \<lparr>w_id = 10, w_name = js ''Acme'', w_userId = 100, w_joinCode = js ''a1b2c3'',
      w_creationTime = 0, w_domainVerified = None, w_joinCodeEnabled = None\<rparr>"

text \<open>
  The workspace 10 with its admin 100 and a pending claim for \<^verbatim>\<open>acme.com\<close> with the
  token \<^verbatim>\<open>abc123\<close>.
\<close>

definition acmeClaim :: Domain where
  "acmeClaim =
     \<lparr>domainId = 1, workspaceId = 10, domain = js ''acme.com'',
      verificationToken = js ''abc123'', status = pending, verifiedAt = None,
      createdAt = 0, createdBy = 100\<rparr>"

definition acmeStore :: store where
  "acmeStore =
     \<lparr>domains = [acmeClaim], workspaces = [freshWorkspace], inviteLinks = [],
      members = [\<lparr>memberUserId = 100, memberWorkspaceId = 10, role = admin\<rparr>],
      nextId = 2\<rparr>"

text \<open>
  The same store with a token that contains a quote, \<^verbatim>\<open>a"b\<close>, and with a token that
  contains a backslash and a quote, \<^verbatim>\<open>a\"b\<close>.
\<close>

definition quotedClaim :: Domain where
  "quotedClaim = acmeClaim\<lparr>verificationToken := js ''a'' @ [QUOTE] @ js ''b''\<rparr>"

definition quotedStore :: store where
  "quotedStore = acmeStore\<lparr>domains := [quotedClaim]\<rparr>"

definition escapedClaim :: Domain where
  "escapedClaim = acmeClaim\<lparr>verificationToken := js ''a'' @ [BACKSLASH, QUOTE] @ js ''b''\<rparr>"

definition escapedStore :: store where
  "escapedStore = acmeStore\<lparr>domains := [escapedClaim]\<rparr>"

text \<open>A resolver that answers every query with the given entries of (type, data).\<close>

definition answering :: "(int \<times> jsstring) list \<Rightarrow> resolver" where
  "answering entries =
     (\<lambda>n. Response True 200
        (JsonValue \<lparr>Status = 0,
           Answer = Some (map (\<lambda>(t, d). \<lparr>name = n, type = t, TTL = 300, data = d\<rparr>) entries)\<rparr>))"

text \<open>A resolver whose server answers 503, and one whose response has no \<^verbatim>\<open>Answer\<close>.\<close>

definition unavailable :: resolver where
  "unavailable = (\<lambda>n. Response False 503 JsonRejected)"

definition noAnswer :: resolver where
  "noAnswer = (\<lambda>n. Response True 200 (JsonValue \<lparr>Status = 3, Answer = None\<rparr>))"

text \<open>
  Two workspaces, 10 and 20, with their admins 100 and 101, before any claim or invite
  link exists.
\<close>

definition store0 :: store where
  "store0 =
     \<lparr>domains = [], workspaces = [freshWorkspace, freshWorkspace\<lparr>w_id := 20, w_userId := 101\<rparr>],
      inviteLinks = [],
      members = [\<lparr>memberUserId = 100, memberWorkspaceId = 10, role = admin\<rparr>,
                 \<lparr>memberUserId = 101, memberWorkspaceId = 20, role = admin\<rparr>],
      nextId = 1\<rparr>"

text \<open>
  An invite link for workspace 10 that admits one use, as created at time 0 with the
  default expiry, and the stores after its creation and after its redemption by user
  200.
\<close>

definition link1 :: InviteLink where
  "link1 =
     \<lparr>linkId = 1, linkWorkspaceId = 10, code = js ''Zx9-q'', linkCreatedBy = 100,
      linkCreatedAt = 0, expiresAt = 86400000, maxUses = Some 1, usedCount = 0,
      scope = ScopeWorkspace, revokedAt = None\<rparr>"

definition store1 :: store where
  "store1 = store0\<lparr>inviteLinks := [link1], nextId := 2\<rparr>"

definition store2 :: store where
  "store2 =
     store1\<lparr>inviteLinks := [link1\<lparr>usedCount := 1\<rparr>],
            members := members store1
              @ [\<lparr>memberUserId = 200, memberWorkspaceId = 10, role = member\<rparr>]\<rparr>"

text \<open>A link that is used up, revoked and, from time 86400000 on, expired.\<close>

definition deadLink :: InviteLink where
  "deadLink = link1\<lparr>usedCount := 1, revokedAt := Some 50\<rparr>"

definition deadLinkStore :: store where
  "deadLinkStore = store2\<lparr>inviteLinks := [deadLink]\<rparr>"





section \<open>Properties\<close>

subsection \<open>Strings\<close>

lemma js_append: "js (a @ b) = js a @ js b"
  by (simp add: js_def)

lemma notImplemented_mentions:
  "sublist (js ''is not implemented'') (notImplemented providerId operation)"
proof -
  have "notImplemented providerId operation =
          (js ''['' @ providerId @ js ''] '' @ operation @ js '' '')
            @ js ''is not implemented'' @ (js ''. '' @ js ''See docs/EDITIONING.md for self-host status.'')"
    by (simp add: notImplemented_def js_def)
  then show ?thesis
    by (simp only: sublist_appendI)
qed

lemma length_stripQuotes: "length (stripQuotes s) \<le> length s"
  by (cases s) (auto simp: stripQuotes_def Let_def)

lemma length_unescapeQuotes: "length (unescapeQuotes s) \<le> length s"
  by (induction s rule: unescapeQuotes.induct) auto

lemma length_trim: "length (trim s) \<le> length s"
proof -
  have "length (dropWhile isWhiteSpace (rev (dropWhile isWhiteSpace s)))
          \<le> length (rev (dropWhile isWhiteSpace s))"
    by (rule length_dropWhile_le)
  also have "\<dots> \<le> length s"
    by (simp add: length_dropWhile_le)
  finally show ?thesis
    by (simp add: trim_def)
qed

lemma normalised_length:
  "length (trim (unescapeQuotes (stripQuotes s))) \<le> length s"
  using length_trim [of "unescapeQuotes (stripQuotes s)"]
        length_unescapeQuotes [of "stripQuotes s"] length_stripQuotes [of s]
  by linarith

lemma stripQuotes_Cons:
  "c \<noteq> QUOTE \<Longrightarrow> \<exists>ys. stripQuotes (c # xs) = c # ys"
  by (cases xs rule: rev_cases) (auto simp: stripQuotes_def Let_def butlast_append)

lemma unescapeQuotes_Cons:
  "c \<noteq> BACKSLASH \<Longrightarrow> unescapeQuotes (c # xs) = c # unescapeQuotes xs"
  by (cases xs) auto

lemma trim_Cons:
  assumes "\<not> isWhiteSpace c"
  shows "\<exists>ys. trim (c # xs) = c # ys"
proof -
  have "dropWhile isWhiteSpace (rev xs @ [c])
          = (if \<forall>x\<in>set (rev xs). isWhiteSpace x then [c] else dropWhile isWhiteSpace (rev xs) @ [c])"
    using assms by (simp add: dropWhile_append)
  then obtain us where "dropWhile isWhiteSpace (rev xs @ [c]) = us @ [c]"
    by (metis append_Nil)
  then show ?thesis
    using assms by (simp add: trim_def)
qed

lemma normalised_Cons:
  assumes "c \<noteq> QUOTE" "c \<noteq> BACKSLASH" "\<not> isWhiteSpace c"
  shows "\<exists>ys. trim (unescapeQuotes (stripQuotes (c # xs))) = c # ys"
proof -
  obtain ys where "stripQuotes (c # xs) = c # ys"
    using stripQuotes_Cons [OF assms(1)] by blast
  then have "unescapeQuotes (stripQuotes (c # xs)) = c # unescapeQuotes ys"
    by (simp add: unescapeQuotes_Cons [OF assms(2)])
  then show ?thesis
    using trim_Cons [OF assms(3)] by simp
qed

lemma stripQuotes_quoted:
  "stripQuotes (QUOTE # xs @ [QUOTE]) = xs"
  by (simp add: stripQuotes_def)

lemma upper_never_matches:
  "trim (unescapeQuotes (stripQuotes (js ''KIIAREN-VERIFICATION='' @ t))) \<noteq> DNS_TXT_PREFIX @ t"
proof -
  have k: "js ''KIIAREN-VERIFICATION='' @ t = 0x4B # (js ''IIAREN-VERIFICATION='' @ t)"
    by (simp add: js_def)
  have "\<exists>ys. trim (unescapeQuotes (stripQuotes ((0x4B::code_unit) # (js ''IIAREN-VERIFICATION='' @ t)))) = 0x4B # ys"
    by (rule normalised_Cons) (simp_all add: QUOTE_def BACKSLASH_def isWhiteSpace_def)
  then obtain ys where n: "trim (unescapeQuotes (stripQuotes (js ''KIIAREN-VERIFICATION='' @ t))) = 0x4B # ys"
    unfolding k by blast
  have e: "DNS_TXT_PREFIX @ t = 0x6B # (js ''iiaren-verification='' @ t)"
    by (simp add: DNS_TXT_PREFIX_def js_def)
  show ?thesis
    unfolding n e by simp
qed

lemma upper_quoted_never_matches:
  "trim (unescapeQuotes (stripQuotes (QUOTE # js ''KIIAREN-VERIFICATION='' @ t @ [QUOTE]))) \<noteq> DNS_TXT_PREFIX @ t"
proof -
  have k: "js ''KIIAREN-VERIFICATION='' @ t = 0x4B # (js ''IIAREN-VERIFICATION='' @ t)"
    by (simp add: js_def)
  have q: "stripQuotes (QUOTE # js ''KIIAREN-VERIFICATION='' @ t @ [QUOTE]) = js ''KIIAREN-VERIFICATION='' @ t"
    using stripQuotes_quoted [of "js ''KIIAREN-VERIFICATION='' @ t"] by simp
  have "\<exists>ys. trim (unescapeQuotes ((0x4B::code_unit) # (js ''IIAREN-VERIFICATION='' @ t))) = 0x4B # ys"
    using trim_Cons [of "0x4B" "unescapeQuotes (js ''IIAREN-VERIFICATION='' @ t)"]
    by (simp add: unescapeQuotes_Cons BACKSLASH_def isWhiteSpace_def)
  then obtain ys where n: "trim (unescapeQuotes (js ''KIIAREN-VERIFICATION='' @ t)) = 0x4B # ys"
    unfolding k by blast
  have e: "DNS_TXT_PREFIX @ t = 0x6B # (js ''iiaren-verification='' @ t)"
    by (simp add: DNS_TXT_PREFIX_def js_def)
  show ?thesis
    unfolding q n e by simp
qed

lemma escapeQuotes_no_leading_quote: "escapeQuotes s = b # rest \<Longrightarrow> b \<noteq> QUOTE"
  by (cases s) (auto simp: QUOTE_def BACKSLASH_def split: if_splits)

lemma unescapeQuotes_escapeQuotes: "unescapeQuotes (escapeQuotes s) = s"
proof (induction s)
  case Nil
  then show ?case by simp
next
  case (Cons c cs)
  show ?case
  proof (cases "c = QUOTE")
    case True
    with Cons show ?thesis by simp
  next
    case False
    show ?thesis
    proof (cases "escapeQuotes cs")
      case Nil
      with Cons False show ?thesis by simp
    next
      case (Cons b rest)
      then have "b \<noteq> QUOTE"
        by (rule escapeQuotes_no_leading_quote)
      with Cons Cons.IH False show ?thesis by simp
    qed
  qed
qed

lemma trim_padded:
  assumes "list_all isWhiteSpace ws1" and "list_all isWhiteSpace ws2"
    and "v \<noteq> []" and "\<not> isWhiteSpace (hd v)" and "\<not> isWhiteSpace (last v)"
  shows "trim (ws1 @ v @ ws2) = v"
proof -
  have 1: "dropWhile isWhiteSpace (ws1 @ v @ ws2) = v @ ws2"
    using assms(1,3,4) by (cases v) (simp_all add: dropWhile_append3 list_all_iff dropWhile_append)
  have "rev v \<noteq> []" "\<not> isWhiteSpace (hd (rev v))"
    using assms(3,5) by (simp_all add: hd_rev)
  then have 2: "dropWhile isWhiteSpace (rev ws2 @ rev v) = rev v"
    using assms(2) by (cases "rev v") (simp_all add: dropWhile_append list_all_iff)
  show ?thesis
    by (simp add: trim_def 1 2)
qed

lemma unescapeQuotes_shortens:
  "sublist [BACKSLASH, QUOTE] s \<Longrightarrow> length (unescapeQuotes s) < length s"
proof (induction s rule: unescapeQuotes.induct)
  case (1 a b rest)
  show ?case
  proof (cases "a = BACKSLASH \<and> b = QUOTE")
    case True
    then show ?thesis
      using length_unescapeQuotes [of rest] by simp
  next
    case False
    with "1.prems" have "sublist [BACKSLASH, QUOTE] (b # rest)"
      by (auto simp: sublist_Cons_right)
    with "1.IH"(2) False show ?thesis by auto
  qed
qed (auto simp: sublist_Cons_right)

lemma stripQuotes_keeps_or_drops_last:
  "c \<noteq> QUOTE \<Longrightarrow> stripQuotes (c # xs) = c # xs \<or> stripQuotes (c # xs) = butlast (c # xs)"
  by (simp add: stripQuotes_def Let_def)

lemma raw_escaped_never_matches:
  assumes "sublist [BACKSLASH, QUOTE] t"
  shows "trim (unescapeQuotes (stripQuotes (js ''kiiaren-verification='' @ t)))
           \<noteq> js ''kiiaren-verification='' @ t"
proof -
  let ?r = "js ''kiiaren-verification='' @ t"
  have k: "?r = 0x6B # (js ''iiaren-verification='' @ t)"
    by (simp add: js_def)
  have s: "sublist [BACKSLASH, QUOTE] ?r"
    using assms by (meson sublist_append_leftI sublist_order.order_trans)
  have "stripQuotes ?r = ?r \<or> stripQuotes ?r = butlast ?r"
    unfolding k by (rule stripQuotes_keeps_or_drops_last) (simp add: QUOTE_def)
  then have "length (unescapeQuotes (stripQuotes ?r)) < length ?r"
  proof
    assume e: "stripQuotes ?r = ?r"
    from s have "length (unescapeQuotes ?r) < length ?r"
      by (rule unescapeQuotes_shortens)
    then show ?thesis
      by (simp only: e)
  next
    assume b: "stripQuotes ?r = butlast ?r"
    have "length (unescapeQuotes (butlast ?r)) \<le> length (butlast ?r)"
      by (rule length_unescapeQuotes)
    also have "\<dots> < length ?r"
      by (simp add: js_def)
    finally show ?thesis
      by (simp add: b)
  qed
  moreover have "length (trim (unescapeQuotes (stripQuotes ?r)))
      \<le> length (unescapeQuotes (stripQuotes ?r))"
    by (rule length_trim)
  ultimately have "length (trim (unescapeQuotes (stripQuotes ?r))) < length ?r"
    by linarith
  then show ?thesis
    by (metis less_irrefl)
qed

lemma encoded_matches:
  assumes "list_all isWhiteSpace ws1" and "list_all isWhiteSpace ws2"
    and "t = [] \<or> \<not> isWhiteSpace (last t)"
  shows "trim (unescapeQuotes (stripQuotes
            (QUOTE # escapeQuotes (ws1 @ (js ''kiiaren-verification='' @ t) @ ws2) @ [QUOTE])))
           = js ''kiiaren-verification='' @ t"
proof -
  let ?v = "js ''kiiaren-verification='' @ t"
  have v: "?v \<noteq> []" "\<not> isWhiteSpace (hd ?v)"
    by (simp_all add: js_def isWhiteSpace_def)
  have "last ?v = (if t = [] then 0x3D else last t)"
    by (simp add: js_def)
  with assms(3) have l: "\<not> isWhiteSpace (last ?v)"
    by (auto simp: isWhiteSpace_def)
  show ?thesis
    by (simp only: stripQuotes_quoted unescapeQuotes_escapeQuotes
        trim_padded [OF assms(1,2) v l])
qed

lemma already_claimed_names_domain:
  "sublist D (domainVerificationMessage D already_claimed)"
  by (simp add: sublist_appendI)

lemma inviteLinkMessage_distinct: "inviteLinkMessage a = inviteLinkMessage b \<longleftrightarrow> a = b"
  by (cases a; cases b) (simp_all add: js_def)

subsection \<open>The workspace transformation\<close>

text \<open>
  C10: for every stored workspace document in which the domain trust fields are absent,
  \<^verbatim>\<open>transformWorkspace\<close> reports \<^verbatim>\<open>domainVerified = false\<close> and
  \<^verbatim>\<open>joinCodeEnabled = true\<close>; the other fields are carried over.
\<close>

theorem transformWorkspace_absent_trust_fields:
  assumes "w_domainVerified w = None" and "w_joinCodeEnabled w = None"
  shows "domainVerified (transformWorkspace w) = False
         \<and> joinCodeEnabled (transformWorkspace w) = True
         \<and> workspace_id (transformWorkspace w) = w_id w
         \<and> workspace_name (transformWorkspace w) = w_name w
         \<and> ownerId (transformWorkspace w) = w_userId w
         \<and> joinCode (transformWorkspace w) = w_joinCode w
         \<and> workspace_createdAt (transformWorkspace w) = w_creationTime w"
  using assms by (simp add: transformWorkspace_def nullish_def)

theorem transformWorkspace_absent_trust_fields_witness:
  "w_domainVerified freshWorkspace = None \<and> w_joinCodeEnabled freshWorkspace = None
   \<and> \<not> domainVerified (transformWorkspace freshWorkspace)
   \<and> joinCodeEnabled (transformWorkspace freshWorkspace)"
proof -
  have a: "w_domainVerified freshWorkspace = None"
    by (simp add: freshWorkspace_def)
  have b: "w_joinCodeEnabled freshWorkspace = None"
    by (simp add: freshWorkspace_def)
  from transformWorkspace_absent_trust_fields [OF a b] a b show ?thesis
    by simp
qed

subsection \<open>The domain hooks\<close>

text \<open>
  C9: for every provider id other than \<^verbatim>\<open>'convex'\<close>, each of the five domain hooks
  throws an error saying that the operation is not implemented, and the render has
  issued no backend request; with the provider \<^verbatim>\<open>'convex'\<close> none of them throws.
\<close>

theorem domain_hooks_convex_only:
  "(providerId \<noteq> js ''convex'' \<longrightarrow>
      throwsNotImplemented (useAddDomain providerId)
      \<and> backendRequests (snd (useAddDomain providerId)) = []
      \<and> throwsNotImplemented (useVerifyDomain providerId)
      \<and> backendRequests (snd (useVerifyDomain providerId)) = []
      \<and> throwsNotImplemented (useListDomains providerId w)
      \<and> backendRequests (snd (useListDomains providerId w)) = []
      \<and> throwsNotImplemented (useRemoveDomain providerId)
      \<and> backendRequests (snd (useRemoveDomain providerId)) = []
      \<and> throwsNotImplemented (useGetVerificationInstructions providerId i)
      \<and> backendRequests (snd (useGetVerificationInstructions providerId i)) = [])
   \<and> (providerId = js ''convex'' \<longrightarrow>
      fst (useAddDomain providerId) = Inr (Mutate domains_addDomain)
      \<and> fst (useVerifyDomain providerId) = Inr (Mutate domainActions_verifyDomain)
      \<and> fst (useListDomains providerId w) = Inr (QueryData domains_listDomains)
      \<and> backendRequests (snd (useListDomains providerId w)) = [Request domains_listDomains w]
      \<and> fst (useRemoveDomain providerId) = Inr (Mutate domains_removeDomain)
      \<and> fst (useGetVerificationInstructions providerId i)
          = Inr (QueryData domains_getVerificationInstructions))"
  by (simp add: useAddDomain_def useVerifyDomain_def useListDomains_def useRemoveDomain_def
      useGetVerificationInstructions_def throwsNotImplemented_def notImplemented_mentions)

theorem domain_hooks_convex_only_witness:
  "js ''self-host'' \<noteq> js ''convex''
   \<and> fst (useAddDomain (js ''self-host''))
       = Inl (js ''[self-host] domains.add is not implemented. See docs/EDITIONING.md for self-host status.'')
   \<and> throwsNotImplemented (useListDomains (js ''self-host'') 10)
   \<and> backendRequests (snd (useListDomains (js ''self-host'') 10)) = []
   \<and> backendRequests (snd (useListDomains (js ''convex'') 10)) = [Request domains_listDomains 10]"
proof -
  have ne: "js ''self-host'' \<noteq> js ''convex''"
    by (simp add: js_def)
  have msg: "fst (useAddDomain (js ''self-host''))
       = Inl (js ''[self-host] domains.add is not implemented. See docs/EDITIONING.md for self-host status.'')"
    by (simp add: useAddDomain_def notImplemented_def js_def)
  from domain_hooks_convex_only [of "js ''self-host''" 10 None]
       domain_hooks_convex_only [of "js ''convex''" 10 None] ne msg
  show ?thesis
    by simp
qed

subsection \<open>The DNS resolver adapter tolerates failures\<close>

lemma lookupDnsTxt_failure:
  assumes "fetch n = FetchRejected \<or> fetch n = Response False st body
           \<or> fetch n = Response True st JsonRejected
           \<or> (fetch n = Response True st (JsonValue resp) \<and> Answer resp = None)"
  shows "lookupDnsTxt fetch n = []"
  using assms by (auto simp: lookupDnsTxt_def lookupDnsTxt_try_def)

lemma lookupDnsTxt_answer:
  assumes "fetch n = Response True st (JsonValue resp)" and "Answer resp = Some as"
  shows "lookupDnsTxt fetch n
           = map (\<lambda>a. unescapeQuotes (stripQuotes (data a))) (filter (\<lambda>a. type a = 16) as)"
  using assms by (simp add: lookupDnsTxt_def lookupDnsTxt_try_def)

lemma verifyDomain_no_records:
  assumes "getById s i = Some d" and "lookupDnsTxt fetch (js ''_kiiaren-verification.'' @ domain d) = []"
  shows "verifyDomain s fetch now i
           = (Inr \<lparr>success = False,
                   error = Some (js ''No TXT records found at '' @ (js ''_kiiaren-verification.'' @ domain d)
                     @ js ''. Please add the DNS record and wait for propagation (usually 5-15 minutes).'')\<rparr>,
              [UpdateStatus i failed None])"
  using assms by (simp add: verifyDomain_def dnsNameOf_def Let_def)

text \<open>
  C4: if the DNS-over-HTTPS query fails (the request is rejected, the HTTP status is not
  OK, the body is not JSON) or the response has no \<^verbatim>\<open>Answer\<close>, \<^verbatim>\<open>lookupDnsTxt\<close> returns
  the empty list, and \<^verbatim>\<open>verifyDomain\<close> on an existing claim returns the
  no-records-found failure; when there is an \<^verbatim>\<open>Answer\<close>, the records are the normalised
  data of the entries of type 16, and all other entries can be dropped without changing
  the result.
\<close>

theorem lookupDnsTxt_tolerates_failures:
  "(fetch n = FetchRejected \<or> fetch n = Response False st body
      \<or> fetch n = Response True st JsonRejected
      \<or> (fetch n = Response True st (JsonValue resp) \<and> Answer resp = None)
    \<longrightarrow> lookupDnsTxt fetch n = []
        \<and> (getById s i = Some d \<and> n = js ''_kiiaren-verification.'' @ domain d
             \<longrightarrow> verifyDomain s fetch now i
                 = (Inr \<lparr>success = False,
                         error = Some (js ''No TXT records found at '' @ n
                           @ js ''. Please add the DNS record and wait for propagation (usually 5-15 minutes).'')\<rparr>,
                    [UpdateStatus i failed None])))
   \<and> (fetch n = Response True st (JsonValue resp) \<and> Answer resp = Some as
    \<longrightarrow> lookupDnsTxt fetch n
          = map (\<lambda>a. unescapeQuotes (stripQuotes (data a))) (filter (\<lambda>a. type a = 16) as)
        \<and> lookupDnsTxt fetch n
          = lookupDnsTxt
              (fetch(n := Response True st
                 (JsonValue (resp\<lparr>Answer := Some (filter (\<lambda>a. type a = 16) as)\<rparr>)))) n)"
proof (intro conjI impI)
  assume f: "fetch n = FetchRejected \<or> fetch n = Response False st body
      \<or> fetch n = Response True st JsonRejected
      \<or> (fetch n = Response True st (JsonValue resp) \<and> Answer resp = None)"
  then show e: "lookupDnsTxt fetch n = []"
    by (rule lookupDnsTxt_failure)
  assume "getById s i = Some d \<and> n = js ''_kiiaren-verification.'' @ domain d"
  with e show "verifyDomain s fetch now i
                 = (Inr \<lparr>success = False,
                         error = Some (js ''No TXT records found at '' @ n
                           @ js ''. Please add the DNS record and wait for propagation (usually 5-15 minutes).'')\<rparr>,
                    [UpdateStatus i failed None])"
    using verifyDomain_no_records [of s i d fetch now] by simp
next
  assume a: "fetch n = Response True st (JsonValue resp) \<and> Answer resp = Some as"
  then show "lookupDnsTxt fetch n
          = map (\<lambda>a. unescapeQuotes (stripQuotes (data a))) (filter (\<lambda>a. type a = 16) as)"
    by (simp add: lookupDnsTxt_answer)
  from a show "lookupDnsTxt fetch n
          = lookupDnsTxt
              (fetch(n := Response True st
                 (JsonValue (resp\<lparr>Answer := Some (filter (\<lambda>a. type a = 16) as)\<rparr>)))) n"
    by (simp add: lookupDnsTxt_def lookupDnsTxt_try_def)
qed

theorem lookupDnsTxt_tolerates_failures_witness:
  "unavailable (js ''_kiiaren-verification.acme.com'') = Response False 503 JsonRejected
   \<and> getById acmeStore 1 = Some acmeClaim
   \<and> lookupDnsTxt unavailable (js ''_kiiaren-verification.acme.com'') = []
   \<and> verifyDomain acmeStore unavailable 5 1
       = (Inr \<lparr>success = False,
               error = Some (js ''No TXT records found at _kiiaren-verification.acme.com. Please add the DNS record and wait for propagation (usually 5-15 minutes).'')\<rparr>,
          [UpdateStatus 1 failed None])
   \<and> lookupDnsTxt (answering [(5, js ''alias.acme.com.''), (16, js ''\"v=spf1 -all\"'')])
        (js ''_kiiaren-verification.acme.com'') = [js ''v=spf1 -all'']"
proof -
  let ?n = "js ''_kiiaren-verification.acme.com''"
  let ?as = "[\<lparr>name = ?n, type = 5, TTL = 300, data = js ''alias.acme.com.''\<rparr>,
              \<lparr>name = ?n, type = 16, TTL = 300, data = js ''\"v=spf1 -all\"''\<rparr>]"
  have u: "unavailable ?n = Response False 503 JsonRejected"
    by (simp add: unavailable_def)
  have g: "getById acmeStore 1 = Some acmeClaim"
    by (simp add: getById_def acmeStore_def acmeClaim_def)
  have n: "?n = js ''_kiiaren-verification.'' @ domain acmeClaim"
    by (simp add: acmeClaim_def js_def)
  have an: "answering [(5, js ''alias.acme.com.''), (16, js ''\"v=spf1 -all\"'')] ?n
      = Response True 200 (JsonValue \<lparr>Status = 0, Answer = Some ?as\<rparr>)"
    by (simp add: answering_def)
  have sp: "map (\<lambda>a. unescapeQuotes (stripQuotes (data a))) (filter (\<lambda>a. type a = 16) ?as)
      = [js ''v=spf1 -all'']"
    by (simp add: js_def stripQuotes_def QUOTE_def BACKSLASH_def)
  have m: "js ''No TXT records found at '' @ ?n
      @ js ''. Please add the DNS record and wait for propagation (usually 5-15 minutes).''
      = js ''No TXT records found at _kiiaren-verification.acme.com. Please add the DNS record and wait for propagation (usually 5-15 minutes).''"
    by (simp add: js_def)
  note fails = lookupDnsTxt_tolerates_failures
    [where fetch = unavailable and n = ?n and st = 503 and body = JsonRejected
       and s = acmeStore and i = 1 and d = acmeClaim and now = 5]
  note answers = lookupDnsTxt_tolerates_failures
    [where fetch = "answering [(5, js ''alias.acme.com.''), (16, js ''\"v=spf1 -all\"'')]"
       and n = ?n and st = 200 and resp = "\<lparr>Status = 0, Answer = Some ?as\<rparr>" and as = ?as]
  from fails u have e: "lookupDnsTxt unavailable ?n = []"
    by blast
  from fails u g n have "verifyDomain acmeStore unavailable 5 1
       = (Inr \<lparr>success = False,
               error = Some (js ''No TXT records found at '' @ ?n
                 @ js ''. Please add the DNS record and wait for propagation (usually 5-15 minutes).'')\<rparr>,
          [UpdateStatus 1 failed None])"
    by blast
  then have v: "verifyDomain acmeStore unavailable 5 1
       = (Inr \<lparr>success = False,
               error = Some (js ''No TXT records found at _kiiaren-verification.acme.com. Please add the DNS record and wait for propagation (usually 5-15 minutes).'')\<rparr>,
          [UpdateStatus 1 failed None])"
    by (simp only: m)
  from answers an have "lookupDnsTxt (answering [(5, js ''alias.acme.com.''), (16, js ''\"v=spf1 -all\"'')]) ?n
      = map (\<lambda>a. unescapeQuotes (stripQuotes (data a))) (filter (\<lambda>a. type a = 16) ?as)"
    by simp
  then have f: "lookupDnsTxt (answering [(5, js ''alias.acme.com.''), (16, js ''\"v=spf1 -all\"'')]) ?n
      = [js ''v=spf1 -all'']"
    by (simp only: sp)
  from u g e v f show ?thesis
    by (intro conjI)
qed

subsection \<open>Verification is an exact match\<close>

lemma verifyDomain_succeeds_iff:
  assumes "getById s i = Some d"
  shows "succeeds (fst (verifyDomain s fetch now i))
           \<longleftrightarrow> (\<exists>r \<in> set (lookupDnsTxt fetch (js ''_kiiaren-verification.'' @ domain d)).
                  trim r = DNS_TXT_PREFIX @ verificationToken d)"
  using assms
  by (simp add: verifyDomain_def succeeds_def dnsNameOf_def expectedValueOf_def DNS_TXT_PREFIX_def
      Let_def list_ex_iff)

text \<open>
  C2: for a claim with token T and domain D, \<^verbatim>\<open>verifyDomain\<close> succeeds if and only if
  some TXT record returned by the lookup of \<^verbatim>\<open>_kiiaren-verification.D\<close>, after stripping
  the surrounding quotes, unescaping \<^verbatim>\<open>\"\<close> and trimming, equals
  \<^verbatim>\<open>kiiaren-verification=T\<close> exactly. Records that carry the prefix in capitals never
  verify, and neither do records shorter than the expected value, such as the bare
  token. A record that is the expected value, padded with whitespace, with a backslash
  before each of its quotes and enclosed in quotes, verifies for every token that does
  not end in whitespace. A record that is the expected value as it stands does not
  verify when the token contains a backslash followed by a quote, since the comparison
  comes after the unescaping.
\<close>

theorem verifyDomain_exact_match:
  assumes "getById s i = Some d"
  shows "(succeeds (fst (verifyDomain s fetch now i))
            \<longleftrightarrow> (\<exists>r \<in> set (lookupDnsTxt fetch (js ''_kiiaren-verification.'' @ domain d)).
                   trim r = DNS_TXT_PREFIX @ verificationToken d))
       \<and> (fetch (js ''_kiiaren-verification.'' @ domain d) = Response True st (JsonValue resp)
            \<and> Answer resp = Some as
          \<longrightarrow> (succeeds (fst (verifyDomain s fetch now i))
                \<longleftrightarrow> (\<exists>a \<in> set as. type a = 16
                       \<and> trim (unescapeQuotes (stripQuotes (data a)))
                           = js ''kiiaren-verification='' @ verificationToken d))
              \<and> ((\<forall>a \<in> set as. type a = 16 \<longrightarrow>
                      data a = js ''KIIAREN-VERIFICATION='' @ verificationToken d
                      \<or> data a = QUOTE # js ''KIIAREN-VERIFICATION='' @ verificationToken d @ [QUOTE])
                  \<longrightarrow> \<not> succeeds (fst (verifyDomain s fetch now i)))
              \<and> ((\<forall>a \<in> set as. type a = 16 \<longrightarrow>
                      length (data a) < length (js ''kiiaren-verification='' @ verificationToken d))
                  \<longrightarrow> \<not> succeeds (fst (verifyDomain s fetch now i)))
              \<and> (list_all isWhiteSpace ws1 \<and> list_all isWhiteSpace ws2
                   \<and> (verificationToken d = [] \<or> \<not> isWhiteSpace (last (verificationToken d)))
                   \<and> (\<exists>a \<in> set as. type a = 16
                        \<and> data a = QUOTE # escapeQuotes
                              (ws1 @ (js ''kiiaren-verification='' @ verificationToken d) @ ws2)
                            @ [QUOTE])
                  \<longrightarrow> succeeds (fst (verifyDomain s fetch now i)))
              \<and> (sublist [BACKSLASH, QUOTE] (verificationToken d)
                   \<and> (\<forall>a \<in> set as. type a = 16 \<longrightarrow>
                        data a = js ''kiiaren-verification='' @ verificationToken d)
                  \<longrightarrow> \<not> succeeds (fst (verifyDomain s fetch now i))))"
proof (intro conjI impI)
  show iff: "succeeds (fst (verifyDomain s fetch now i))
            \<longleftrightarrow> (\<exists>r \<in> set (lookupDnsTxt fetch (js ''_kiiaren-verification.'' @ domain d)).
                   trim r = DNS_TXT_PREFIX @ verificationToken d)"
    using assms by (rule verifyDomain_succeeds_iff)
  assume a: "fetch (js ''_kiiaren-verification.'' @ domain d) = Response True st (JsonValue resp)
            \<and> Answer resp = Some as"
  then have l: "lookupDnsTxt fetch (js ''_kiiaren-verification.'' @ domain d)
      = map (\<lambda>a. unescapeQuotes (stripQuotes (data a))) (filter (\<lambda>a. type a = 16) as)"
    by (simp add: lookupDnsTxt_answer)
  show iff2: "succeeds (fst (verifyDomain s fetch now i))
                \<longleftrightarrow> (\<exists>a \<in> set as. type a = 16
                       \<and> trim (unescapeQuotes (stripQuotes (data a)))
                           = js ''kiiaren-verification='' @ verificationToken d)"
    unfolding iff l by (auto simp: DNS_TXT_PREFIX_def)
  {
    assume u: "\<forall>a \<in> set as. type a = 16 \<longrightarrow>
                      data a = js ''KIIAREN-VERIFICATION='' @ verificationToken d
                      \<or> data a = QUOTE # js ''KIIAREN-VERIFICATION='' @ verificationToken d @ [QUOTE]"
    show "\<not> succeeds (fst (verifyDomain s fetch now i))"
      unfolding iff2
      using u upper_never_matches [of "verificationToken d"]
        upper_quoted_never_matches [of "verificationToken d"]
      by (auto simp: DNS_TXT_PREFIX_def)
  }
  {
    assume sh: "\<forall>a \<in> set as. type a = 16 \<longrightarrow>
                      length (data a) < length (js ''kiiaren-verification='' @ verificationToken d)"
    show "\<not> succeeds (fst (verifyDomain s fetch now i))"
      unfolding iff2
    proof
      assume "\<exists>a \<in> set as. type a = 16
                       \<and> trim (unescapeQuotes (stripQuotes (data a)))
                           = js ''kiiaren-verification='' @ verificationToken d"
      then obtain a where "a \<in> set as" "type a = 16"
        and e: "trim (unescapeQuotes (stripQuotes (data a))) = js ''kiiaren-verification='' @ verificationToken d"
        by blast
      with sh have "length (data a) < length (js ''kiiaren-verification='' @ verificationToken d)"
        by blast
      moreover have "length (trim (unescapeQuotes (stripQuotes (data a)))) \<le> length (data a)"
        by (rule normalised_length)
      ultimately show False
        unfolding e by linarith
    qed
  }
  {
    assume e: "list_all isWhiteSpace ws1 \<and> list_all isWhiteSpace ws2
        \<and> (verificationToken d = [] \<or> \<not> isWhiteSpace (last (verificationToken d)))
        \<and> (\<exists>a \<in> set as. type a = 16
             \<and> data a = QUOTE # escapeQuotes
                   (ws1 @ (js ''kiiaren-verification='' @ verificationToken d) @ ws2)
                 @ [QUOTE])"
    then obtain a where "a \<in> set as" "type a = 16"
      and da: "data a = QUOTE # escapeQuotes
                   (ws1 @ (js ''kiiaren-verification='' @ verificationToken d) @ ws2)
                 @ [QUOTE]"
      by blast
    moreover have "trim (unescapeQuotes (stripQuotes (data a)))
        = js ''kiiaren-verification='' @ verificationToken d"
      unfolding da using e by (intro encoded_matches) simp_all
    ultimately show "succeeds (fst (verifyDomain s fetch now i))"
      unfolding iff2 by blast
  }
  {
    assume r: "sublist [BACKSLASH, QUOTE] (verificationToken d)
        \<and> (\<forall>a \<in> set as. type a = 16 \<longrightarrow>
             data a = js ''kiiaren-verification='' @ verificationToken d)"
    show "\<not> succeeds (fst (verifyDomain s fetch now i))"
      unfolding iff2
      using r raw_escaped_never_matches [of "verificationToken d"] by auto
  }
qed


theorem verifyDomain_exact_match_witness:
  "getById acmeStore 1 = Some acmeClaim
   \<and> succeeds (fst (verifyDomain acmeStore
         (answering [(16, js ''\"kiiaren-verification=abc123\"'')]) 5 1))
   \<and> succeeds (fst (verifyDomain acmeStore
         (answering [(5, js ''alias.acme.com.''), (16, js '' kiiaren-verification=abc123  '')]) 5 1))
   \<and> \<not> succeeds (fst (verifyDomain acmeStore
         (answering [(16, js ''\"KIIAREN-VERIFICATION=abc123\"'')]) 5 1))
   \<and> \<not> succeeds (fst (verifyDomain acmeStore
         (answering [(16, js ''\"kiiaren-verification=abc1234\"'')]) 5 1))
   \<and> \<not> succeeds (fst (verifyDomain acmeStore
         (answering [(16, js ''\"abc123\"'')]) 5 1))
   \<and> \<not> succeeds (fst (verifyDomain acmeStore
         (answering [(5, js ''kiiaren-verification=abc123'')]) 5 1))
   \<and> getById quotedStore 1 = Some quotedClaim
   \<and> verificationToken quotedClaim = [0x61, 0x22, 0x62]
   \<and> succeeds (fst (verifyDomain quotedStore
         (answering [(16, [0x22] @ js ''kiiaren-verification=a'' @ [0x5C, 0x22] @ js ''b'' @ [0x22])])
         5 1))
   \<and> \<not> succeeds (fst (verifyDomain quotedStore
         (answering [(16, [0x22] @ js ''kiiaren-verification=a'' @ [0x5C, 0x5C, 0x22] @ js ''b'' @ [0x22])])
         5 1))
   \<and> getById escapedStore 1 = Some escapedClaim
   \<and> verificationToken escapedClaim = [0x61, 0x5C, 0x22, 0x62]
   \<and> \<not> succeeds (fst (verifyDomain escapedStore
         (answering [(16, js ''kiiaren-verification=a'' @ [0x5C, 0x22] @ js ''b'')]) 5 1))
   \<and> succeeds (fst (verifyDomain escapedStore
         (answering [(16, js ''kiiaren-verification=a'' @ [0x5C, 0x5C, 0x22] @ js ''b'')]) 5 1))"
proof -
  have g: "getById acmeStore 1 = Some acmeClaim"
    by (simp add: getById_def acmeStore_def acmeClaim_def)
  have gq: "getById quotedStore 1 = Some quotedClaim"
    by (simp add: getById_def quotedStore_def quotedClaim_def acmeStore_def acmeClaim_def)
  have ge: "getById escapedStore 1 = Some escapedClaim"
    by (simp add: getById_def escapedStore_def escapedClaim_def acmeStore_def acmeClaim_def)
  note exact = verifyDomain_exact_match [OF g, THEN conjunct1]
  note exactq = verifyDomain_exact_match [OF gq, THEN conjunct1]
  note exacte = verifyDomain_exact_match [OF ge, THEN conjunct1]
  have d: "js ''_kiiaren-verification.'' @ domain acmeClaim = js ''_kiiaren-verification.acme.com''"
    by (simp add: acmeClaim_def js_def)
  have dq: "js ''_kiiaren-verification.'' @ domain quotedClaim = js ''_kiiaren-verification.acme.com''"
    by (simp add: quotedClaim_def acmeClaim_def js_def)
  have de: "js ''_kiiaren-verification.'' @ domain escapedClaim = js ''_kiiaren-verification.acme.com''"
    by (simp add: escapedClaim_def acmeClaim_def js_def)
  have t: "DNS_TXT_PREFIX @ verificationToken acmeClaim = js ''kiiaren-verification=abc123''"
    by (simp add: acmeClaim_def DNS_TXT_PREFIX_def js_def)
  have vq: "verificationToken quotedClaim = [0x61, 0x22, 0x62]"
    by (simp add: quotedClaim_def QUOTE_def js_def)
  have ve: "verificationToken escapedClaim = [0x61, 0x5C, 0x22, 0x62]"
    by (simp add: escapedClaim_def QUOTE_def BACKSLASH_def js_def)
  have 1: "succeeds (fst (verifyDomain acmeStore
         (answering [(16, js ''\"kiiaren-verification=abc123\"'')]) 5 1))"
    unfolding exact d t
    by (simp add: lookupDnsTxt_def lookupDnsTxt_try_def answering_def stripQuotes_def js_def
        QUOTE_def BACKSLASH_def trim_def isWhiteSpace_def)
  have 2: "succeeds (fst (verifyDomain acmeStore
         (answering [(5, js ''alias.acme.com.''), (16, js '' kiiaren-verification=abc123  '')]) 5 1))"
    unfolding exact d t
    by (simp add: lookupDnsTxt_def lookupDnsTxt_try_def answering_def stripQuotes_def js_def
        QUOTE_def BACKSLASH_def trim_def isWhiteSpace_def)
  have 3: "\<not> succeeds (fst (verifyDomain acmeStore
         (answering [(16, js ''\"KIIAREN-VERIFICATION=abc123\"'')]) 5 1))"
    unfolding exact d t
    by (simp add: lookupDnsTxt_def lookupDnsTxt_try_def answering_def stripQuotes_def js_def
        QUOTE_def BACKSLASH_def trim_def isWhiteSpace_def)
  have 4: "\<not> succeeds (fst (verifyDomain acmeStore
         (answering [(16, js ''\"kiiaren-verification=abc1234\"'')]) 5 1))"
    unfolding exact d t
    by (simp add: lookupDnsTxt_def lookupDnsTxt_try_def answering_def stripQuotes_def js_def
        QUOTE_def BACKSLASH_def trim_def isWhiteSpace_def)
  have 5: "\<not> succeeds (fst (verifyDomain acmeStore
         (answering [(16, js ''\"abc123\"'')]) 5 1))"
    unfolding exact d t
    by (simp add: lookupDnsTxt_def lookupDnsTxt_try_def answering_def stripQuotes_def js_def
        QUOTE_def BACKSLASH_def trim_def isWhiteSpace_def)
  have 6: "\<not> succeeds (fst (verifyDomain acmeStore
         (answering [(5, js ''kiiaren-verification=abc123'')]) 5 1))"
    unfolding exact d t
    by (simp add: lookupDnsTxt_def lookupDnsTxt_try_def answering_def)
  have 7: "succeeds (fst (verifyDomain quotedStore
         (answering [(16, [0x22] @ js ''kiiaren-verification=a'' @ [0x5C, 0x22] @ js ''b'' @ [0x22])])
         5 1))"
    unfolding exactq dq vq
    by (simp add: lookupDnsTxt_def lookupDnsTxt_try_def answering_def stripQuotes_def js_def
        QUOTE_def BACKSLASH_def trim_def isWhiteSpace_def DNS_TXT_PREFIX_def)
  have 8: "\<not> succeeds (fst (verifyDomain quotedStore
         (answering [(16, [0x22] @ js ''kiiaren-verification=a'' @ [0x5C, 0x5C, 0x22] @ js ''b'' @ [0x22])])
         5 1))"
    unfolding exactq dq vq
    by (simp add: lookupDnsTxt_def lookupDnsTxt_try_def answering_def stripQuotes_def js_def
        QUOTE_def BACKSLASH_def trim_def isWhiteSpace_def DNS_TXT_PREFIX_def)
  have 9: "\<not> succeeds (fst (verifyDomain escapedStore
         (answering [(16, js ''kiiaren-verification=a'' @ [0x5C, 0x22] @ js ''b'')]) 5 1))"
    unfolding exacte de ve
    by (simp add: lookupDnsTxt_def lookupDnsTxt_try_def answering_def stripQuotes_def js_def
        QUOTE_def BACKSLASH_def trim_def isWhiteSpace_def DNS_TXT_PREFIX_def)
  have 10: "succeeds (fst (verifyDomain escapedStore
         (answering [(16, js ''kiiaren-verification=a'' @ [0x5C, 0x5C, 0x22] @ js ''b'')]) 5 1))"
    unfolding exacte de ve
    by (simp add: lookupDnsTxt_def lookupDnsTxt_try_def answering_def stripQuotes_def js_def
        QUOTE_def BACKSLASH_def trim_def isWhiteSpace_def DNS_TXT_PREFIX_def)
  from g 1 2 3 4 5 6 gq vq 7 8 ge ve 9 10 show ?thesis
    by (intro conjI)
qed

subsection \<open>Every verification writes one status\<close>

lemma domainId_patchDomain: "domainId (patchDomain i st t d) = domainId d"
  by (simp add: patchDomain_def)

lemma find_map_patchDomain:
  "find (\<lambda>d. domainId d = i) ds = Some d
   \<Longrightarrow> find (\<lambda>d. domainId d = i) (map (patchDomain i st t) ds) = Some (patchDomain i st t d)"
proof (induction ds)
  case Nil
  then show ?case by simp
next
  case (Cons x xs)
  show ?case
  proof (cases "domainId x = i")
    case True
    with Cons.prems have "x = d" by simp
    with True show ?thesis by (simp add: domainId_patchDomain)
  next
    case False
    with Cons.prems have "find (\<lambda>d. domainId d = i) xs = Some d" by simp
    with Cons.IH False show ?thesis by (simp add: domainId_patchDomain)
  qed
qed

lemma getById_updateStatus:
  assumes "getById s i = Some d"
  shows "getById (updateStatus s i st t) i = Some (patchDomain i st t d)"
  using assms find_map_patchDomain [of i "domains s" d st t]
  by (simp add: updateStatus_def getById_def)

lemma getById_domainId: "getById s i = Some d \<Longrightarrow> domainId d = i"
  by (auto simp: getById_def find_Some_iff)

lemma verifyDomain_match:
  assumes "getById s i = Some d"
    and "\<exists>r \<in> set (lookupDnsTxt fetch (js ''_kiiaren-verification.'' @ domain d)).
           trim r = js ''kiiaren-verification='' @ verificationToken d"
  shows "verifyDomain s fetch now i
           = (Inr \<lparr>success = True, error = None\<rparr>, [UpdateStatus i verified (Some now)])"
  using assms
  by (simp add: verifyDomain_def dnsNameOf_def expectedValueOf_def Let_def list_ex_iff)

lemma verifyDomain_no_match:
  assumes "getById s i = Some d"
    and "\<not> (\<exists>r \<in> set (lookupDnsTxt fetch (js ''_kiiaren-verification.'' @ domain d)).
           trim r = js ''kiiaren-verification='' @ verificationToken d)"
  shows "verifyDomain s fetch now i
           = (Inr \<lparr>success = False,
                   error = Some
                     (if lookupDnsTxt fetch (js ''_kiiaren-verification.'' @ domain d) = []
                      then js ''No TXT records found at '' @ (js ''_kiiaren-verification.'' @ domain d)
                        @ js ''. Please add the DNS record and wait for propagation (usually 5-15 minutes).''
                      else js ''TXT records found at '' @ (js ''_kiiaren-verification.'' @ domain d)
                        @ js '' but none match the expected value. Found: ''
                        @ join (js '', '')
                            (lookupDnsTxt fetch (js ''_kiiaren-verification.'' @ domain d)))\<rparr>,
              [UpdateStatus i failed None])"
  using assms
  by (simp add: verifyDomain_def dnsNameOf_def expectedValueOf_def Let_def list_ex_iff)

text \<open>
  C3: every run of \<^verbatim>\<open>verifyDomain\<close> on an existing claim, whatever its current status
  and whatever the resolver does, resolves to a result object and runs exactly one
  status mutation: \<^verbatim>\<open>verified\<close> with \<^verbatim>\<open>verifiedAt\<close> set to now when a record matches,
  \<^verbatim>\<open>failed\<close> otherwise; the claim is still there afterwards with that status, so the
  same holds for a repeated attempt.
\<close>

theorem verifyDomain_one_status_write:
  assumes "getById s i = Some d"
  shows "((\<exists>r \<in> set (lookupDnsTxt fetch (js ''_kiiaren-verification.'' @ domain d)).
             trim r = js ''kiiaren-verification='' @ verificationToken d)
          \<longrightarrow> verifyDomain s fetch now i
                = (Inr \<lparr>success = True, error = None\<rparr>, [UpdateStatus i verified (Some now)])
              \<and> (\<exists>d'. getById (snd (verifyDomainAction s fetch now i)) i = Some d'
                    \<and> status d' = verified \<and> verifiedAt d' = Some now))
       \<and> (\<not> (\<exists>r \<in> set (lookupDnsTxt fetch (js ''_kiiaren-verification.'' @ domain d)).
               trim r = js ''kiiaren-verification='' @ verificationToken d)
          \<longrightarrow> (\<exists>msg. verifyDomain s fetch now i
                  = (Inr \<lparr>success = False, error = Some msg\<rparr>, [UpdateStatus i failed None]))
              \<and> (\<exists>d'. getById (snd (verifyDomainAction s fetch now i)) i = Some d'
                    \<and> status d' = failed))
       \<and> fst (verifyDomainAction s fetch now i) = fst (verifyDomain s fetch now i)"
proof (intro conjI impI)
  assume m: "\<exists>r \<in> set (lookupDnsTxt fetch (js ''_kiiaren-verification.'' @ domain d)).
             trim r = js ''kiiaren-verification='' @ verificationToken d"
  show v: "verifyDomain s fetch now i
                = (Inr \<lparr>success = True, error = None\<rparr>, [UpdateStatus i verified (Some now)])"
    using assms m by (rule verifyDomain_match)
  have "getById (snd (verifyDomainAction s fetch now i)) i
          = Some (patchDomain i verified (Some now) d)"
    by (simp add: verifyDomainAction_def v getById_updateStatus [OF assms])
  then show "\<exists>d'. getById (snd (verifyDomainAction s fetch now i)) i = Some d'
                    \<and> status d' = verified \<and> verifiedAt d' = Some now"
    using getById_domainId [OF assms] by (simp add: patchDomain_def)
next
  assume m: "\<not> (\<exists>r \<in> set (lookupDnsTxt fetch (js ''_kiiaren-verification.'' @ domain d)).
               trim r = js ''kiiaren-verification='' @ verificationToken d)"
  note v = verifyDomain_no_match [OF assms m, of now]
  show "\<exists>msg. verifyDomain s fetch now i
                  = (Inr \<lparr>success = False, error = Some msg\<rparr>, [UpdateStatus i failed None])"
    unfolding v by blast
  have "getById (snd (verifyDomainAction s fetch now i)) i
          = Some (patchDomain i failed None d)"
    by (simp add: verifyDomainAction_def v getById_updateStatus [OF assms])
  then show "\<exists>d'. getById (snd (verifyDomainAction s fetch now i)) i = Some d'
                    \<and> status d' = failed"
    using getById_domainId [OF assms] by (simp add: patchDomain_def)
next
  show "fst (verifyDomainAction s fetch now i) = fst (verifyDomain s fetch now i)"
    by (simp add: verifyDomainAction_def split: prod.splits)
qed


theorem verifyDomain_one_status_write_witness:
  "getById acmeStore 1 = Some acmeClaim
   \<and> verifyDomain acmeStore (answering [(16, js ''\"kiiaren-verification=abc123\"'')]) 5 1
       = (Inr \<lparr>success = True, error = None\<rparr>, [UpdateStatus 1 verified (Some 5)])
   \<and> (\<exists>d'. getById (snd (verifyDomainAction acmeStore
                 (answering [(16, js ''\"kiiaren-verification=abc123\"'')]) 5 1)) 1 = Some d'
          \<and> status d' = verified \<and> verifiedAt d' = Some 5)
   \<and> (\<exists>msg. verifyDomain (snd (verifyDomainAction acmeStore
                 (answering [(16, js ''\"kiiaren-verification=abc123\"'')]) 5 1)) unavailable 9 1
          = (Inr \<lparr>success = False, error = Some msg\<rparr>, [UpdateStatus 1 failed None]))
   \<and> (\<exists>d'. getById (snd (verifyDomainAction (snd (verifyDomainAction acmeStore
                 (answering [(16, js ''\"kiiaren-verification=abc123\"'')]) 5 1)) unavailable 9 1)) 1
            = Some d'
          \<and> status d' = failed)"
proof -
  let ?fetch = "answering [(16, js ''\"kiiaren-verification=abc123\"'')]"
  let ?s1 = "snd (verifyDomainAction acmeStore ?fetch 5 1)"
  have g: "getById acmeStore 1 = Some acmeClaim"
    by (simp add: getById_def acmeStore_def acmeClaim_def)
  have m: "\<exists>r \<in> set (lookupDnsTxt ?fetch (js ''_kiiaren-verification.'' @ domain acmeClaim)).
             trim r = js ''kiiaren-verification='' @ verificationToken acmeClaim"
    by (simp add: lookupDnsTxt_def lookupDnsTxt_try_def answering_def stripQuotes_def js_def
        QUOTE_def BACKSLASH_def trim_def isWhiteSpace_def acmeClaim_def)
  note first = verifyDomain_one_status_write [OF g, of ?fetch 5]
  from first m have r1: "verifyDomain acmeStore ?fetch 5 1
       = (Inr \<lparr>success = True, error = None\<rparr>, [UpdateStatus 1 verified (Some 5)])"
    by blast
  from first m have e1: "\<exists>d'. getById ?s1 1 = Some d' \<and> status d' = verified \<and> verifiedAt d' = Some 5"
    by blast
  then obtain d1 where g1: "getById ?s1 1 = Some d1"
    by blast
  have n: "\<not> (\<exists>r \<in> set (lookupDnsTxt unavailable (js ''_kiiaren-verification.'' @ domain d1)).
             trim r = js ''kiiaren-verification='' @ verificationToken d1)"
    by (simp add: lookupDnsTxt_def lookupDnsTxt_try_def unavailable_def)
  note second = verifyDomain_one_status_write [OF g1, of unavailable 9]
  from second n have r2: "\<exists>msg. verifyDomain ?s1 unavailable 9 1
          = (Inr \<lparr>success = False, error = Some msg\<rparr>, [UpdateStatus 1 failed None])"
    by blast
  from second n have e2: "\<exists>d'. getById (snd (verifyDomainAction ?s1 unavailable 9 1)) 1 = Some d'
          \<and> status d' = failed"
    by blast
  from g r1 e1 r2 e2 show ?thesis
    by (intro conjI)
qed

text \<open>
  C5 as stated does not hold: for a \<^verbatim>\<open>domainId\<close> without a claim the action does not
  throw; the promise resolves to the object \<^verbatim>\<open>{ success: false, error: 'Domain not found' }\<close>.
\<close>

theorem verifyDomain_unknown_id_counterexample:
  "getById acmeStore 7 = None
   \<and> \<not> isl (fst (verifyDomain acmeStore unavailable 5 7))
   \<and> verifyDomain acmeStore unavailable 5 7
       = (Inr \<lparr>success = False, error = Some (js ''Domain not found'')\<rparr>, [])"
  by (simp add: verifyDomain_def getById_def acmeStore_def acmeClaim_def)

text \<open>
  C5, amended: when \<^verbatim>\<open>verifyDomain\<close> is called with a \<^verbatim>\<open>domainId\<close> that references no
  existing claim, it returns the structured result with \<^verbatim>\<open>success = false\<close> and the error
  \<^verbatim>\<open>Domain not found\<close>, runs no mutation and leaves the store as it was.
\<close>

theorem verifyDomain_unknown_id_returned:
  assumes "getById s i = None"
  shows "verifyDomain s fetch now i
           = (Inr \<lparr>success = False, error = Some (js ''Domain not found'')\<rparr>, [])
         \<and> verifyDomainAction s fetch now i
           = (Inr \<lparr>success = False, error = Some (js ''Domain not found'')\<rparr>, s)"
  using assms by (simp add: verifyDomain_def verifyDomainAction_def)

theorem verifyDomain_unknown_id_returned_witness:
  "getById acmeStore 7 = None
   \<and> verifyDomainAction acmeStore noAnswer 5 7
       = (Inr \<lparr>success = False, error = Some (js ''Domain not found'')\<rparr>, acmeStore)"
proof -
  have g: "getById acmeStore 7 = None"
    by (simp add: getById_def acmeStore_def acmeClaim_def)
  from verifyDomain_unknown_id_returned [OF g, of noAnswer 5] g show ?thesis
    by blast
qed

subsection \<open>The failure message\<close>






subsection \<open>Lookup of an invite link by its code\<close>

lemma find_distinct_code:
  "l \<in> set ls \<Longrightarrow> distinct (map code ls) \<Longrightarrow> find (\<lambda>x. code x = code l) ls = Some l"
  by (induction ls) (auto simp: rev_image_eqI)

text \<open>
  C6: \<^verbatim>\<open>getInviteLinkByCode\<close> returns a stored link with the code whenever one exists,
  and, codes being unique, that very link, whether or not it is redeemable; it returns
  nothing exactly when no stored link has the code.
\<close>

theorem getInviteLinkByCode_does_not_filter:
  "(l \<in> set (inviteLinks s) \<and> code l = c
      \<longrightarrow> (\<exists>l'. getInviteLinkByCode s c = Some l' \<and> code l' = c \<and> l' \<in> set (inviteLinks s)))
   \<and> (l \<in> set (inviteLinks s) \<and> code l = c \<and> distinct (map code (inviteLinks s))
      \<longrightarrow> getInviteLinkByCode s c = Some l
          \<and> (\<not> isRedeemable l now \<longrightarrow> getInviteLinkByCode s c = Some l))
   \<and> (getInviteLinkByCode s c = None \<longleftrightarrow> (\<forall>l \<in> set (inviteLinks s). code l \<noteq> c))"
proof (intro conjI impI)
  assume a: "l \<in> set (inviteLinks s) \<and> code l = c"
  then have "find (\<lambda>l. code l = c) (inviteLinks s) \<noteq> None"
    by (auto simp: find_None_iff)
  then obtain l' where f: "find (\<lambda>l. code l = c) (inviteLinks s) = Some l'"
    by blast
  then have "code l' = c" "l' \<in> set (inviteLinks s)"
    by (auto simp: find_Some_iff)
  with f show "\<exists>l'. getInviteLinkByCode s c = Some l' \<and> code l' = c \<and> l' \<in> set (inviteLinks s)"
    by (simp add: getInviteLinkByCode_def)
next
  assume a: "l \<in> set (inviteLinks s) \<and> code l = c \<and> distinct (map code (inviteLinks s))"
  then show g: "getInviteLinkByCode s c = Some l"
    using find_distinct_code [of l "inviteLinks s"] by (auto simp: getInviteLinkByCode_def)
  then show "getInviteLinkByCode s c = Some l" .
next
  show "getInviteLinkByCode s c = None \<longleftrightarrow> (\<forall>l \<in> set (inviteLinks s). code l \<noteq> c)"
    by (auto simp: getInviteLinkByCode_def find_None_iff)
qed

theorem getInviteLinkByCode_does_not_filter_witness:
  "deadLink \<in> set (inviteLinks deadLinkStore) \<and> distinct (map code (inviteLinks deadLinkStore))
   \<and> \<not> isRedeemable deadLink 86400000
   \<and> revokedAt deadLink \<noteq> None \<and> expiresAt deadLink \<le> 86400000
   \<and> maxUses deadLink = Some (usedCount deadLink)
   \<and> getInviteLinkByCode deadLinkStore (js ''Zx9-q'') = Some deadLink
   \<and> getInviteLinkByCode deadLinkStore (js ''zx9-q'') = None"
proof -
  have m: "deadLink \<in> set (inviteLinks deadLinkStore)"
    by (simp add: deadLinkStore_def)
  have c: "code deadLink = js ''Zx9-q''"
    by (simp add: deadLink_def link1_def)
  have d: "distinct (map code (inviteLinks deadLinkStore))"
    by (simp add: deadLinkStore_def)
  have r: "\<not> isRedeemable deadLink 86400000"
    by (simp add: isRedeemable_def deadLink_def)
  have o: "revokedAt deadLink \<noteq> None \<and> expiresAt deadLink \<le> 86400000
      \<and> maxUses deadLink = Some (usedCount deadLink)"
    by (simp add: deadLink_def link1_def)
  have n: "\<forall>l \<in> set (inviteLinks deadLinkStore). code l \<noteq> js ''zx9-q''"
    by (simp add: deadLinkStore_def deadLink_def link1_def js_def)
  from getInviteLinkByCode_does_not_filter [of deadLink deadLinkStore "js ''Zx9-q''" 86400000] m c d
  have 1: "getInviteLinkByCode deadLinkStore (js ''Zx9-q'') = Some deadLink"
    by blast
  from getInviteLinkByCode_does_not_filter [of deadLink deadLinkStore "js ''zx9-q''" 86400000] n
  have 2: "getInviteLinkByCode deadLinkStore (js ''zx9-q'') = None"
    by blast
  from m d r o 1 2 show ?thesis
    by (intro conjI) simp_all
qed

subsection \<open>The bound on the uses of an invite link\<close>

lemma inviteLinks_updateStatus: "inviteLinks (updateStatus s i st t) = inviteLinks s"
  by (simp add: updateStatus_def split: option.splits)

lemma inviteLinks_runMutations: "inviteLinks (foldl runMutation s calls) = inviteLinks s"
proof (induction calls arbitrary: s)
  case Nil
  then show ?case by simp
next
  case (Cons call calls)
  then show ?case
    by (cases call) (simp add: inviteLinks_updateStatus)
qed

lemma inviteLinks_verifyDomainAction:
  "verifyDomainAction s fetch now i = (r, s') \<Longrightarrow> inviteLinks s' = inviteLinks s"
  by (auto simp: verifyDomainAction_def inviteLinks_runMutations split: prod.splits)

lemma inviteLinks_addDomain:
  "addDomain validHost s session token now w raw = Inr (c, s') \<Longrightarrow> inviteLinks s' = inviteLinks s"
  by (auto simp: addDomain_def Let_def split: sum.splits option.splits if_splits)

lemma inviteLinks_removeDomain:
  "removeDomain s session i = Inr s' \<Longrightarrow> inviteLinks s' = inviteLinks s"
  by (auto simp: removeDomain_def Let_def split: sum.splits option.splits if_splits)

lemma usesBounded_createInviteLink:
  "usesBounded s \<Longrightarrow> createInviteLink s session c now w sc h mx = Inr (l, s') \<Longrightarrow> usesBounded s'"
  by (auto simp: createInviteLink_def usesBounded_def withinMaxUses_def Let_def
      split: sum.splits option.splits)

lemma find_in_set: "find p xs = Some x \<Longrightarrow> x \<in> set xs"
  by (induction xs) (auto split: if_splits)

lemma list_all_patchFirst:
  "list_all P xs \<Longrightarrow> (\<And>x. find p xs = Some x \<Longrightarrow> P (f x)) \<Longrightarrow> list_all P (patchFirst p f xs)"
  by (induction xs) auto

lemma usesBounded_redeemInviteLink:
  assumes "usesBounded s" and "redeemInviteLink s session now c = Inr s'"
  shows "usesBounded s'"
proof -
  from assms(2) obtain u l where l: "getInviteLinkByCode s c = Some l"
    and below: "\<not> (case maxUses l of None \<Rightarrow> False | Some n \<Rightarrow> usedCount l \<ge> n)"
    and s': "inviteLinks s' = patchFirst (\<lambda>x. code x = c) (\<lambda>x. x\<lparr>usedCount := Suc (usedCount x)\<rparr>)
                               (inviteLinks s)"
    by (auto simp: redeemInviteLink_def split: sum.splits option.splits if_splits)
  from below have "withinMaxUses (l\<lparr>usedCount := Suc (usedCount l)\<rparr>)"
    by (auto simp: withinMaxUses_def split: option.splits)
  with l have "\<And>x. find (\<lambda>x. code x = c) (inviteLinks s) = Some x
      \<Longrightarrow> withinMaxUses (x\<lparr>usedCount := Suc (usedCount x)\<rparr>)"
    by (simp add: getInviteLinkByCode_def)
  with assms(1) show ?thesis
    unfolding usesBounded_def s' by (rule list_all_patchFirst)
qed

lemma usesBounded_revokeInviteLink:
  assumes "usesBounded s" and "revokeInviteLink s session now i = Inr s'"
  shows "usesBounded s'"
proof -
  from assms(2) have s': "inviteLinks s' = patchFirst (\<lambda>x. linkId x = i) (\<lambda>x. x\<lparr>revokedAt := Some now\<rparr>)
                               (inviteLinks s)"
    by (auto simp: revokeInviteLink_def split: sum.splits option.splits)
  have "\<And>x. find (\<lambda>x. linkId x = i) (inviteLinks s) = Some x
      \<Longrightarrow> withinMaxUses (x\<lparr>revokedAt := Some now\<rparr>)"
  proof -
    fix x
    assume "find (\<lambda>x. linkId x = i) (inviteLinks s) = Some x"
    then have "x \<in> set (inviteLinks s)"
      by (rule find_in_set)
    with assms(1) have "withinMaxUses x"
      by (simp add: usesBounded_def list_all_iff)
    then show "withinMaxUses (x\<lparr>revokedAt := Some now\<rparr>)"
      by (simp add: withinMaxUses_def split: option.splits)
  qed
  with assms(1) show ?thesis
    unfolding usesBounded_def s' by (rule list_all_patchFirst)
qed

lemma reachable_usesBounded: "reachable s \<Longrightarrow> usesBounded s"
proof (induction rule: reachable.induct)
  case (reach_init s)
  then show ?case by (simp add: usesBounded_def)
next
  case (reach_other s a b)
  then show ?case by (simp add: usesBounded_def)
next
  case (reach_addDomain s validHost session token now w raw c s')
  then show ?case by (simp add: usesBounded_def inviteLinks_addDomain)
next
  case (reach_verifyDomain s fetch now i r s')
  then show ?case by (simp add: usesBounded_def inviteLinks_verifyDomainAction)
next
  case (reach_removeDomain s session i s')
  then show ?case by (simp add: usesBounded_def inviteLinks_removeDomain)
next
  case (reach_createInviteLink s session c now w sc h mx l s')
  then show ?case by (blast intro: usesBounded_createInviteLink)
next
  case (reach_redeemInviteLink s session now c s')
  then show ?case by (blast intro: usesBounded_redeemInviteLink)
next
  case (reach_revokeInviteLink s session now i s')
  then show ?case by (blast intro: usesBounded_revokeInviteLink)
qed

lemma redeem_at_bound_fails:
  assumes "getInviteLinkByCode s c = Some l" and "maxUses l = Some n" and "usedCount l \<ge> n"
  shows "\<exists>e. redeemInviteLink s session now c = Inl e"
  using assms by (auto simp: redeemInviteLink_def requireAuth_def split: option.splits)

lemma redeem_at_bound_max_uses:
  assumes "getInviteLinkByCode s c = Some l" and "maxUses l = Some n" and "usedCount l \<ge> n"
    and "session = Some u" and "revokedAt l = None" and "now < expiresAt l"
  shows "redeemInviteLink s session now c = Inl (InviteLinkError c max_uses)"
  using assms by (simp add: redeemInviteLink_def requireAuth_def)

text \<open>
  C7: in every reachable store a link with
  \<^verbatim>\<open>maxUses = N\<close> has \<^verbatim>\<open>usedCount\<close> at most N. A redemption of a link whose
  \<^verbatim>\<open>usedCount\<close> has reached N fails and leaves the store, so \<^verbatim>\<open>usedCount\<close>, as it
  was; for an authenticated user and a link that is neither revoked nor expired the
  reason is \<^verbatim>\<open>max_uses\<close>. A successful redemption keeps the bound.
\<close>

theorem invite_uses_never_exceed_maxUses:
  "(reachable s \<and> l \<in> set (inviteLinks s) \<and> maxUses l = Some n \<longrightarrow> usedCount l \<le> n)
   \<and> (getInviteLinkByCode s c = Some l \<and> maxUses l = Some n \<and> usedCount l \<ge> n
        \<longrightarrow> (\<exists>e. redeemInviteLink s session now c = Inl e)
            \<and> afterMutation s (redeemInviteLink s session now c) = s
            \<and> (session = Some u \<and> revokedAt l = None \<and> now < expiresAt l
                 \<longrightarrow> redeemInviteLink s session now c = Inl (InviteLinkError c max_uses)))
   \<and> (usesBounded s \<and> redeemInviteLink s session now c = Inr s' \<longrightarrow> usesBounded s')"
proof (intro conjI impI)
  assume "reachable s \<and> l \<in> set (inviteLinks s) \<and> maxUses l = Some n"
  then show "usedCount l \<le> n"
    using reachable_usesBounded [of s]
    by (auto simp: usesBounded_def withinMaxUses_def list_all_iff)
next
  assume a: "getInviteLinkByCode s c = Some l \<and> maxUses l = Some n \<and> usedCount l \<ge> n"
  then show f: "\<exists>e. redeemInviteLink s session now c = Inl e"
    using redeem_at_bound_fails by blast
  then show "afterMutation s (redeemInviteLink s session now c) = s"
    by (auto simp: afterMutation_def)
  assume "session = Some u \<and> revokedAt l = None \<and> now < expiresAt l"
  with a show "redeemInviteLink s session now c = Inl (InviteLinkError c max_uses)"
    using redeem_at_bound_max_uses by blast
next
  assume "usesBounded s \<and> redeemInviteLink s session now c = Inr s'"
  then show "usesBounded s'"
    using usesBounded_redeemInviteLink by blast
qed

lemma reachable_store2: "reachable store2"
proof -
  have 0: "reachable store0"
    by (rule reach_init) (simp_all add: store0_def)
  have "createInviteLink store0 (Some 100) (js ''Zx9-q'') 0 10 ScopeWorkspace None (Some 1)
          = Inr (link1, store1)"
    by (simp add: createInviteLink_def requireWorkspaceAdmin_def requireWorkspaceMember_def
        requireAuth_def unique_def store0_def store1_def link1_def Let_def)
  with 0 have 1: "reachable store1"
    by (rule reach_createInviteLink)
  have "redeemInviteLink store1 (Some 200) 1000 (js ''Zx9-q'') = Inr store2"
    by (simp add: redeemInviteLink_def requireAuth_def getInviteLinkByCode_def store0_def
        store1_def store2_def link1_def)
  with 1 show ?thesis
    by (rule reach_redeemInviteLink)
qed

theorem invite_uses_never_exceed_maxUses_witness:
  "reachable store2
   \<and> getInviteLinkByCode store2 (js ''Zx9-q'') = Some (link1\<lparr>usedCount := 1\<rparr>)
   \<and> maxUses (link1\<lparr>usedCount := 1\<rparr>) = Some 1
   \<and> usedCount (link1\<lparr>usedCount := 1\<rparr>) \<le> 1
   \<and> redeemInviteLink store2 (Some 201) 2000 (js ''Zx9-q'')
       = Inl (InviteLinkError (js ''Zx9-q'') max_uses)"
proof -
  let ?l = "link1\<lparr>usedCount := 1\<rparr>"
  have g: "getInviteLinkByCode store2 (js ''Zx9-q'') = Some ?l"
    by (simp add: getInviteLinkByCode_def store2_def link1_def)
  have m: "?l \<in> set (inviteLinks store2)"
    by (simp add: store2_def)
  have v: "maxUses ?l = Some 1 \<and> usedCount ?l \<ge> 1 \<and> revokedAt ?l = None \<and> 2000 < expiresAt ?l"
    by (simp add: link1_def)
  note t = invite_uses_never_exceed_maxUses
    [where s = store2 and l = ?l and n = 1 and c = "js ''Zx9-q''" and session = "Some 201"
       and u = 201 and now = 2000]
  from t reachable_store2 m v have b: "usedCount ?l \<le> 1"
    by blast
  from t g v have r: "redeemInviteLink store2 (Some 201) 2000 (js ''Zx9-q'')
       = Inl (InviteLinkError (js ''Zx9-q'') max_uses)"
    by blast
  from reachable_store2 g v b r show ?thesis
    by (intro conjI) simp_all
qed

subsection \<open>Uniqueness of domain claims\<close>























end
